theory Spec2Isabelle
  imports Complex_Main "HOL-Library.Monad_Syntax"
begin

section \<open>The handle registries of scip_api.c\<close>

text \<open>
  A native solver object (\<open>SCIP_VAR*\<close>, \<open>SCIP_CONS*\<close>, \<open>SCIP_ROW*\<close>) is known to the
  bridge by its address only. Addresses are natural numbers and the null pointer is 0.
\<close>

type_synonym ptr = nat

abbreviation NULL :: ptr where
  "NULL \<equiv> 0"

text \<open>
  The three registries (\<open>var_registry\<close>, \<open>cons_registry\<close>, \<open>row_registry\<close>) are three
  copies of the same code over three pointer types, so one registry type serves them all.
  \<open>reg_items\<close> is the initialised prefix \<open>registry[0 .. size-1]\<close> of the C array, so that
  the C variable \<open>*_registry_size\<close> is the length of the list; \<open>reg_capacity\<close> is
  \<open>*_registry_capacity\<close>, which the code only ever sets to 0 or to a positive number.
  Both are natural numbers without an upper bound: a C int would overflow only in a
  registry of more than a thousand million entries.
\<close>

record registry =
  reg_items :: "ptr list"
  reg_capacity :: nat

definition registry_size :: "registry \<Rightarrow> nat" where
  "registry_size r = length (reg_items r)"

text \<open>
  The loop \<open>while (newcap < needed) newcap *= 2;\<close> of \<open>ensure*RegistryCapacity\<close>.
  It does not return when it is entered with \<open>newcap = 0 < needed\<close>; the value None
  stands for that.
\<close>

partial_function (option) growCapacity :: "nat \<Rightarrow> nat \<Rightarrow> nat option" where
  "growCapacity newcap needed =
     (if newcap < needed then growCapacity (newcap * 2) needed else Some newcap)"

text \<open>
  \<open>ensureVarRegistryCapacity\<close> and its two copies. \<open>realloc_ok\<close> says whether the call
  of \<open>realloc\<close>, if it is reached, returns a block. The result is the C return value
  (1 or 0) with the registry; \<open>realloc\<close> keeps the entries that are already there.
\<close>

definition ensureRegistryCapacity :: "nat \<Rightarrow> bool \<Rightarrow> registry \<Rightarrow> (int \<times> registry) option" where
  "ensureRegistryCapacity needed realloc_ok r =
     (if needed \<le> reg_capacity r then Some (1, r)
      else do {
        newcap \<leftarrow> growCapacity (if reg_capacity r = 0 then 64 else reg_capacity r) needed;
        if \<not> realloc_ok then Some (0, r)
        else Some (1, r\<lparr>reg_capacity := newcap\<rparr>)
      })"

text \<open>
  The identity scan \<open>for (i = 0; i < size; ++i) if (registry[i] == obj) return i + 1;\<close>:
  \<open>scanRegistry xs obj i\<close> scans the entries from index \<open>i\<close> on, \<open>xs\<close> being what is
  left of the array there.
\<close>

fun scanRegistry :: "ptr list \<Rightarrow> ptr \<Rightarrow> int \<Rightarrow> int option" where
  "scanRegistry [] obj i = None"
| "scanRegistry (x # xs) obj i = (if x = obj then Some (i + 1) else scanRegistry xs obj (i + 1))"

text \<open>\<open>registerVarHandle\<close>, \<open>registerConsHandle\<close>, \<open>registerRowHandle\<close>.\<close>

definition registerHandle :: "ptr \<Rightarrow> bool \<Rightarrow> registry \<Rightarrow> (int \<times> registry) option" where
  "registerHandle obj realloc_ok r =
     (if obj = NULL then Some (- 1, r)
      else case scanRegistry (reg_items r) obj 0 of
        Some h \<Rightarrow> Some (h, r)
      | None \<Rightarrow> do {
          (ok, r') \<leftarrow> ensureRegistryCapacity (registry_size r + 1) realloc_ok r;
          if ok = 0 then Some (- 1, r')
          else Some (int (registry_size r') + 1, r'\<lparr>reg_items := reg_items r' @ [obj]\<rparr>)
        })"

text \<open>\<open>getVarByHandle\<close>, \<open>getConsByHandle\<close>, \<open>getRowByHandle\<close>.\<close>

definition getByHandle :: "int \<Rightarrow> registry \<Rightarrow> ptr" where
  "getByHandle h r =
     (if h \<le> 0 \<or> h > int (registry_size r) then NULL else reg_items r ! nat (h - 1))"

text \<open>One registry's share of \<open>clearRegistries\<close>.\<close>

definition clearRegistry :: registry where
  "clearRegistry = \<lparr>reg_items = [], reg_capacity = 0\<rparr>"

text \<open>
  A sequence of register calls on one registry, each with the object to register and the
  answer \<open>realloc\<close> would give; the handles returned on the way are dropped.
\<close>

fun registerAll :: "(ptr \<times> bool) list \<Rightarrow> registry \<Rightarrow> registry option" where
  "registerAll [] r = Some r"
| "registerAll ((obj, realloc_ok) # calls) r =
     (case registerHandle obj realloc_ok r of
        None \<Rightarrow> None
      | Some (h, r') \<Rightarrow> registerAll calls r')"

section \<open>The bridge state\<close>

text \<open>
  Modelled from the spec: the enumerators and the sentinel of the solver's headers
  (\<open>SCIP_OKAY\<close>, \<open>SCIP_DIDNOTRUN\<close>, \<open>SCIP_DIDNOTFIND\<close>, \<open>SCIP_SUCCESS\<close>, \<open>SCIP_INVALID\<close>),
  which scip_api.c includes and which are not part of this repository. The spec names
  them (result SUCCESS, result DIDNOTRUN, the unset lower bound) without their values;
  the values below are those of the SCIP headers. The general theorems of this file hold
  for any values; the worked examples use no more than that the sentinel is none of the
  small numbers they set as lower bounds and that 0 is not \<open>SCIP_OKAY\<close>. A \<open>SCIP_RESULT\<close>
  and a \<open>SCIP_RETCODE\<close> are C ints, since the code casts both ways. A \<open>SCIP_Real\<close> is a real number: the bridge stores,
  copies and compares lower bounds and never computes with them.
\<close>

type_synonym SCIP_RESULT = int
type_synonym SCIP_RETCODE = int
type_synonym SCIP_Real = real

definition SCIP_OKAY :: SCIP_RETCODE where
  "SCIP_OKAY = 1"

definition SCIP_DIDNOTRUN :: SCIP_RESULT where
  "SCIP_DIDNOTRUN = 1"

definition SCIP_DIDNOTFIND :: SCIP_RESULT where
  "SCIP_DIDNOTFIND = 3"

definition SCIP_SUCCESS :: SCIP_RESULT where
  "SCIP_SUCCESS = 17"

definition SCIP_INVALID :: SCIP_Real where
  "SCIP_INVALID = 10 ^ 99"

text \<open>
  Modelled from the spec: the solution statuses of the solver's header
  \<open>scip/type_stat.h\<close>, not part of this repository; \<open>scip_solve\<close> names four of them and
  sends all the others to its default case.
\<close>

datatype SCIP_STATUS =
    SCIP_STATUS_UNKNOWN
  | SCIP_STATUS_USERINTERRUPT
  | SCIP_STATUS_NODELIMIT
  | SCIP_STATUS_TOTALNODELIMIT
  | SCIP_STATUS_STALLNODELIMIT
  | SCIP_STATUS_TIMELIMIT
  | SCIP_STATUS_MEMLIMIT
  | SCIP_STATUS_GAPLIMIT
  | SCIP_STATUS_SOLLIMIT
  | SCIP_STATUS_BESTSOLLIMIT
  | SCIP_STATUS_RESTARTLIMIT
  | SCIP_STATUS_OPTIMAL
  | SCIP_STATUS_INFEASIBLE
  | SCIP_STATUS_UNBOUNDED
  | SCIP_STATUS_INFORUNBD
  | SCIP_STATUS_TERMINATE

text \<open>
  A call that leaves the bridge for the external side: the \<open>EM_ASM\<close> blocks that invoke
  \<open>Module.onIncumbent\<close>, \<open>Module.onNode\<close>, \<open>Module.onPricerRedcost\<close> and
  \<open>Module.onPricerFarkas\<close>, with the arguments they pass.
\<close>

datatype callout =
    OnIncumbent SCIP_Real
  | OnNode SCIP_Real SCIP_Real SCIP_Real
  | OnPricerRedcost
  | OnPricerFarkas

text \<open>
  The static variables of scip_api.c, one field each under the name the C file gives it
  (the three fields of each registry are one \<open>registry\<close>). The C ints are unbounded
  integers here: the counters only ever grow by one per call, and signed overflow has no
  defined result in C. The last two fields are not in the C file. They record what the
  bridge does to the outside: \<open>interrupt_requests\<close> counts the calls of
  \<open>SCIPinterruptSolve\<close>, and \<open>callouts\<close> lists, oldest first, the external handlers that
  were invoked.
\<close>

record bridge =
  scip_instance :: ptr
  current_pricing_mode :: int
  priced_vars_added :: int
  js_incumbent_callback :: int
  js_node_callback :: int
  js_pricer_redcost_callback :: int
  js_pricer_farkas_callback :: int
  js_pricer :: ptr
  pending_pricer_result :: SCIP_RESULT
  pending_pricer_lowerbound :: SCIP_Real
  pending_pricer_stopearly :: bool
  pending_pricer_abortround :: bool
  pricer_redcost_calls :: int
  pricer_farkas_calls :: int
  pricer_round :: int
  last_pricing_mode :: int
  last_pricing_result :: int
  added_vars_this_call :: int
  var_registry :: registry
  cons_registry :: registry
  row_registry :: registry
  interrupt_requests :: nat
  callouts :: "callout list"

text \<open>The state the static initialisers give, before any call.\<close>

definition bridge_init :: bridge where
  "bridge_init =
     \<lparr>scip_instance = NULL,
      current_pricing_mode = 0,
      priced_vars_added = 0,
      js_incumbent_callback = 0,
      js_node_callback = 0,
      js_pricer_redcost_callback = 0,
      js_pricer_farkas_callback = 0,
      js_pricer = NULL,
      pending_pricer_result = SCIP_SUCCESS,
      pending_pricer_lowerbound = SCIP_INVALID,
      pending_pricer_stopearly = False,
      pending_pricer_abortround = False,
      pricer_redcost_calls = 0,
      pricer_farkas_calls = 0,
      pricer_round = 0,
      last_pricing_mode = 0,
      last_pricing_result = SCIP_DIDNOTRUN,
      added_vars_this_call = 0,
      var_registry = clearRegistry,
      cons_registry = clearRegistry,
      row_registry = clearRegistry,
      interrupt_requests = 0,
      callouts = []\<rparr>"

definition clearRegistries :: "bridge \<Rightarrow> bridge" where
  "clearRegistries s =
     s\<lparr>var_registry := clearRegistry,
       cons_registry := clearRegistry,
       row_registry := clearRegistry\<rparr>"

definition resetPricingState :: "bridge \<Rightarrow> bridge" where
  "resetPricingState s =
     s\<lparr>pending_pricer_result := SCIP_SUCCESS,
       pending_pricer_lowerbound := SCIP_INVALID,
       pending_pricer_stopearly := False,
       pending_pricer_abortround := False,
       pricer_redcost_calls := 0,
       pricer_farkas_calls := 0,
       pricer_round := 0,
       last_pricing_mode := 0,
       last_pricing_result := SCIP_DIDNOTRUN,
       added_vars_this_call := 0,
       current_pricing_mode := 0,
       priced_vars_added := 0\<rparr>"

text \<open>
  \<open>clearCurrentProblem\<close> asks the solver for its stage and has it free the transformed
  problem and the problem. It reads \<open>scip_instance\<close> and writes no variable of the
  bridge, and the return codes of the two solver calls are cast away.
\<close>

definition clearCurrentProblem :: "bridge \<Rightarrow> bridge" where
  "clearCurrentProblem s = (if scip_instance s = NULL then s else s)"

definition SCIPinterruptSolve :: "bridge \<Rightarrow> bridge" where
  "SCIPinterruptSolve s = s\<lparr>interrupt_requests := interrupt_requests s + 1\<rparr>"

definition registerVarHandle :: "ptr \<Rightarrow> bool \<Rightarrow> bridge \<Rightarrow> (int \<times> bridge) option" where
  "registerVarHandle var realloc_ok s = do {
     (h, r) \<leftarrow> registerHandle var realloc_ok (var_registry s);
     Some (h, s\<lparr>var_registry := r\<rparr>)
   }"

definition registerConsHandle :: "ptr \<Rightarrow> bool \<Rightarrow> bridge \<Rightarrow> (int \<times> bridge) option" where
  "registerConsHandle cons realloc_ok s = do {
     (h, r) \<leftarrow> registerHandle cons realloc_ok (cons_registry s);
     Some (h, s\<lparr>cons_registry := r\<rparr>)
   }"

definition registerRowHandle :: "ptr \<Rightarrow> bool \<Rightarrow> bridge \<Rightarrow> (int \<times> bridge) option" where
  "registerRowHandle row realloc_ok s = do {
     (h, r) \<leftarrow> registerHandle row realloc_ok (row_registry s);
     Some (h, s\<lparr>row_registry := r\<rparr>)
   }"

definition getVarByHandle :: "int \<Rightarrow> bridge \<Rightarrow> ptr" where
  "getVarByHandle varId s = getByHandle varId (var_registry s)"

definition getConsByHandle :: "int \<Rightarrow> bridge \<Rightarrow> ptr" where
  "getConsByHandle consId s = getByHandle consId (cons_registry s)"

definition getRowByHandle :: "int \<Rightarrow> bridge \<Rightarrow> ptr" where
  "getRowByHandle rowId s = getByHandle rowId (row_registry s)"

section \<open>The pricer interface\<close>

text \<open>
  What the solver answers to the calls that create and add a variable (\<open>scip_add_var\<close>,
  \<open>scip_pricer_add_priced_var\<close>): the return code of \<open>SCIPcreateVarBasic\<close> and the
  variable it stored, the return codes of \<open>SCIPvarSetInitial\<close>, \<open>SCIPvarSetRemovable\<close>,
  of \<open>SCIPaddVar\<close> or \<open>SCIPaddPricedVar\<close> and of \<open>SCIPreleaseVar\<close>, and the answer of
  \<open>realloc\<close> if the registry has to grow. The arguments that the bridge only hands on to
  the solver (bounds, objective, type, flags) have no other part in what the bridge does
  and are left out.
\<close>

record var_natives =
  create_ret :: SCIP_RETCODE
  created_var :: ptr
  set_initial_ret :: SCIP_RETCODE
  set_removable_ret :: SCIP_RETCODE
  add_ret :: SCIP_RETCODE
  release_ret :: SCIP_RETCODE
  var_realloc_ok :: bool

text \<open>
  The two assignments every failure branch of the three column functions makes.
\<close>

definition mark_abort :: "bridge \<Rightarrow> bridge" where
  "mark_abort s = s\<lparr>pending_pricer_abortround := True, pending_pricer_result := SCIP_DIDNOTRUN\<rparr>"

text \<open>
  A function of the bridge returns its C return value with the new state. The value None
  is a call that does not return: \<open>SCIP_CALL_ABORT\<close> ends the process when the solver
  call inside it fails.

  In the two batch functions an array argument is a null pointer (None) or the values
  that lie at the address, by index; \<open>row_rets i\<close> is the return code of the \<open>i\<close>-th call
  of \<open>SCIPaddVarToRow\<close> (of \<open>SCIPaddCoefLinear\<close> for constraints).
\<close>

definition scip_pricer_add_var_to_rows_batch ::
  "int \<Rightarrow> (nat \<Rightarrow> int) option \<Rightarrow> (nat \<Rightarrow> SCIP_Real) option \<Rightarrow> int \<Rightarrow> (nat \<Rightarrow> SCIP_RETCODE)
     \<Rightarrow> bridge \<Rightarrow> int \<times> bridge" where
  "scip_pricer_add_var_to_rows_batch varId rowIds vals nnz row_rets s =
     (case rowIds of
        None \<Rightarrow> (- 1, mark_abort s)
      | Some ids \<Rightarrow>
          if scip_instance s = NULL \<or> vals = None \<or> nnz < 0 then (- 1, mark_abort s)
          else if getVarByHandle varId s = NULL then (- 1, mark_abort s)
          else if list_ex (\<lambda>i. getRowByHandle (ids i) s = NULL) [0..<nat nnz] then
            (- 1, mark_abort s)
          else if list_ex (\<lambda>i. row_rets i \<noteq> SCIP_OKAY) [0..<nat nnz] then
            (- 1, SCIPinterruptSolve ((mark_abort s)\<lparr>pending_pricer_stopearly := True\<rparr>))
          else (1, s))"

definition scip_pricer_add_var_to_conss_batch ::
  "int \<Rightarrow> (nat \<Rightarrow> int) option \<Rightarrow> (nat \<Rightarrow> SCIP_Real) option \<Rightarrow> int \<Rightarrow> (nat \<Rightarrow> SCIP_RETCODE)
     \<Rightarrow> bridge \<Rightarrow> int \<times> bridge" where
  "scip_pricer_add_var_to_conss_batch varId consIds vals nnz cons_rets s =
     (case consIds of
        None \<Rightarrow> (- 1, mark_abort s)
      | Some ids \<Rightarrow>
          if scip_instance s = NULL \<or> vals = None \<or> nnz < 0 then (- 1, mark_abort s)
          else if getVarByHandle varId s = NULL then (- 1, mark_abort s)
          else if list_ex (\<lambda>i. getConsByHandle (ids i) s = NULL) [0..<nat nnz] then
            (- 1, mark_abort s)
          else if list_ex (\<lambda>i. cons_rets i \<noteq> SCIP_OKAY) [0..<nat nnz] then
            (- 1, SCIPinterruptSolve ((mark_abort s)\<lparr>pending_pricer_stopearly := True\<rparr>))
          else (1, s))"

definition scip_pricer_add_priced_var ::
  "string option \<Rightarrow> var_natives \<Rightarrow> bridge \<Rightarrow> (int \<times> bridge) option" where
  "scip_pricer_add_priced_var name env s =
     (if scip_instance s = NULL \<or> name = None then Some (- 1, mark_abort s)
      else if create_ret env \<noteq> SCIP_OKAY \<or> created_var env = NULL then Some (- 1, mark_abort s)
      else if set_initial_ret env \<noteq> SCIP_OKAY then None
      else if set_removable_ret env \<noteq> SCIP_OKAY then None
      else if add_ret env \<noteq> SCIP_OKAY then
        (if release_ret env \<noteq> SCIP_OKAY then None else Some (- 1, mark_abort s))
      else do {
        (varId, s1) \<leftarrow> registerVarHandle (created_var env) (var_realloc_ok env) s;
        let s2 = s1\<lparr>priced_vars_added := priced_vars_added s1 + 1,
                    added_vars_this_call := added_vars_this_call s1 + 1\<rparr>;
        if release_ret env \<noteq> SCIP_OKAY then None else Some (varId, s2)
      })"

definition scip_pricer_abort_round :: "bridge \<Rightarrow> bridge" where
  "scip_pricer_abort_round s =
     (let s1 = s\<lparr>pending_pricer_abortround := True,
                 pending_pricer_result := SCIP_DIDNOTRUN,
                 pending_pricer_stopearly := True\<rparr>
      in if scip_instance s1 \<noteq> NULL then SCIPinterruptSolve s1 else s1)"

definition scip_pricer_enable_redcost_callback :: "int \<Rightarrow> bridge \<Rightarrow> bridge" where
  "scip_pricer_enable_redcost_callback enable s =
     s\<lparr>js_pricer_redcost_callback := (if enable \<noteq> 0 then 1 else 0)\<rparr>"

definition scip_pricer_enable_farkas_callback :: "int \<Rightarrow> bridge \<Rightarrow> bridge" where
  "scip_pricer_enable_farkas_callback enable s =
     s\<lparr>js_pricer_farkas_callback := (if enable \<noteq> 0 then 1 else 0)\<rparr>"

definition scip_pricer_set_result :: "int \<Rightarrow> bridge \<Rightarrow> bridge" where
  "scip_pricer_set_result resultcode s =
     s\<lparr>pending_pricer_result := resultcode, last_pricing_result := resultcode\<rparr>"

definition scip_pricer_set_lowerbound :: "SCIP_Real \<Rightarrow> bridge \<Rightarrow> bridge" where
  "scip_pricer_set_lowerbound lowerbound s = s\<lparr>pending_pricer_lowerbound := lowerbound\<rparr>"

definition scip_pricer_set_stopearly :: "int \<Rightarrow> bridge \<Rightarrow> bridge" where
  "scip_pricer_set_stopearly stopearly s = s\<lparr>pending_pricer_stopearly := (stopearly \<noteq> 0)\<rparr>"

definition scip_enable_incumbent_callback :: "int \<Rightarrow> bridge \<Rightarrow> bridge" where
  "scip_enable_incumbent_callback enable s = s\<lparr>js_incumbent_callback := enable\<rparr>"

definition scip_enable_node_callback :: "int \<Rightarrow> bridge \<Rightarrow> bridge" where
  "scip_enable_node_callback enable s = s\<lparr>js_node_callback := enable\<rparr>"

section \<open>Handle translation\<close>

text \<open>
  \<open>found\<close> is what \<open>SCIPfindVar\<close> (\<open>SCIPfindCons\<close>) returns, null when there is no such
  name.
\<close>

definition scip_var_find_id :: "string option \<Rightarrow> ptr \<Rightarrow> bool \<Rightarrow> bridge \<Rightarrow> (int \<times> bridge) option" where
  "scip_var_find_id name found realloc_ok s =
     (if scip_instance s = NULL \<or> name = None then Some (- 1, s)
      else registerVarHandle found realloc_ok s)"

definition scip_cons_find_id :: "string option \<Rightarrow> ptr \<Rightarrow> bool \<Rightarrow> bridge \<Rightarrow> (int \<times> bridge) option" where
  "scip_cons_find_id name found realloc_ok s =
     (if scip_instance s = NULL \<or> name = None then Some (- 1, s)
      else registerConsHandle found realloc_ok s)"

text \<open>
  What the solver answers in \<open>scip_var_get_transformed\<close> and
  \<open>scip_cons_get_transformed\<close>: \<open>SCIPisTransformed\<close>, \<open>SCIPvarIsTransformed\<close> (or
  \<open>SCIPconsIsTransformed\<close>) of the object, the return code of \<open>SCIPgetTransformedVar\<close>
  (or \<open>SCIPgetTransformedCons\<close>) and the object it stored, and the answer of \<open>realloc\<close>.
\<close>

record trans_natives =
  is_transformed :: bool
  obj_is_transformed :: bool
  get_trans_ret :: SCIP_RETCODE
  trans_obj :: ptr
  trans_realloc_ok :: bool

definition scip_var_get_transformed :: "int \<Rightarrow> trans_natives \<Rightarrow> bridge \<Rightarrow> (int \<times> bridge) option" where
  "scip_var_get_transformed varId env s =
     (if scip_instance s = NULL then Some (- 1, s)
      else if \<not> is_transformed env then Some (- 1, s)
      else if getVarByHandle varId s = NULL then Some (- 1, s)
      else if obj_is_transformed env then Some (varId, s)
      else if get_trans_ret env \<noteq> SCIP_OKAY \<or> trans_obj env = NULL then Some (- 1, s)
      else registerVarHandle (trans_obj env) (trans_realloc_ok env) s)"

definition scip_cons_get_transformed :: "int \<Rightarrow> trans_natives \<Rightarrow> bridge \<Rightarrow> (int \<times> bridge) option" where
  "scip_cons_get_transformed consId env s =
     (if scip_instance s = NULL then Some (- 1, s)
      else if \<not> is_transformed env then Some (- 1, s)
      else if getConsByHandle consId s = NULL then Some (- 1, s)
      else if obj_is_transformed env then Some (consId, s)
      else if get_trans_ret env \<noteq> SCIP_OKAY \<or> trans_obj env = NULL then Some (- 1, s)
      else registerConsHandle (trans_obj env) (trans_realloc_ok env) s)"

text \<open>\<open>row\<close> is what \<open>SCIPgetRowLinear\<close> returns for the constraint.\<close>

definition scip_cons_get_row :: "int \<Rightarrow> ptr \<Rightarrow> bool \<Rightarrow> bridge \<Rightarrow> (int \<times> bridge) option" where
  "scip_cons_get_row consId row realloc_ok s =
     (if scip_instance s = NULL then Some (- 1, s)
      else if getConsByHandle consId s = NULL then Some (- 1, s)
      else if row = NULL then Some (- 1, s)
      else registerRowHandle row realloc_ok s)"

text \<open>
  What the solver answers when the bridge asks for the rows of the LP: whether the stage
  is \<open>SCIP_STAGE_SOLVING\<close>, whether the LP is constructed, \<open>SCIPgetNLPRows\<close>, the array
  \<open>SCIPgetLPRows\<close> returns, by index, and the answer of \<open>realloc\<close> when the row at an
  index is registered.
\<close>

record lp_natives =
  stage_solving :: bool
  lp_constructed :: bool
  n_lp_rows :: int
  lp_rows :: "nat \<Rightarrow> ptr"
  row_realloc_ok :: "nat \<Rightarrow> bool"

definition scip_ctx_get_n_lp_rows :: "lp_natives \<Rightarrow> bridge \<Rightarrow> int" where
  "scip_ctx_get_n_lp_rows env s =
     (if scip_instance s = NULL then 0
      else if \<not> stage_solving env then 0
      else if \<not> lp_constructed env then 0
      else n_lp_rows env)"

text \<open>
  The loop of the two row batches, \<open>registerRowHandle(rows[i])\<close> for the indices given,
  the handle being dropped.
\<close>

fun register_lp_rows :: "(nat \<Rightarrow> ptr) \<Rightarrow> (nat \<Rightarrow> bool) \<Rightarrow> nat list \<Rightarrow> bridge \<Rightarrow> bridge option" where
  "register_lp_rows rows reallocs [] s = Some s"
| "register_lp_rows rows reallocs (i # is) s =
     (case registerRowHandle (rows i) (reallocs i) s of
        None \<Rightarrow> None
      | Some (h, s') \<Rightarrow> register_lp_rows rows reallocs is s')"

text \<open>
  \<open>scip_ctx_get_lp_row_duals_batch\<close> and \<open>scip_ctx_get_lp_row_farkas_batch\<close>, which differ
  in the value they copy to \<open>out[i]\<close> only. \<open>out_null\<close> says that \<open>out\<close> is the null
  pointer.
\<close>

definition scip_ctx_get_lp_row_duals_batch ::
  "bool \<Rightarrow> int \<Rightarrow> lp_natives \<Rightarrow> bridge \<Rightarrow> (int \<times> bridge) option" where
  "scip_ctx_get_lp_row_duals_batch out_null n env s =
     (if scip_instance s = NULL \<or> out_null \<or> n \<le> 0 then Some (- 1, s)
      else let nrows = scip_ctx_get_n_lp_rows env s
           in if nrows \<le> 0 then Some (0, s)
              else do {
                let count = (if n < nrows then n else nrows);
                s' \<leftarrow> register_lp_rows (lp_rows env) (row_realloc_ok env) [0..<nat count] s;
                Some (count, s')
              })"

definition scip_ctx_get_lp_row_farkas_batch ::
  "bool \<Rightarrow> int \<Rightarrow> lp_natives \<Rightarrow> bridge \<Rightarrow> (int \<times> bridge) option" where
  "scip_ctx_get_lp_row_farkas_batch out_null n env s =
     (if scip_instance s = NULL \<or> out_null \<or> n \<le> 0 then Some (- 1, s)
      else let nrows = scip_ctx_get_n_lp_rows env s
           in if nrows \<le> 0 then Some (0, s)
              else do {
                let count = (if n < nrows then n else nrows);
                s' \<leftarrow> register_lp_rows (lp_rows env) (row_realloc_ok env) [0..<nat count] s;
                Some (count, s')
              })"

section \<open>Problem construction\<close>

definition scip_add_var :: "string option \<Rightarrow> var_natives \<Rightarrow> bridge \<Rightarrow> (int \<times> bridge) option" where
  "scip_add_var name env s =
     (if scip_instance s = NULL \<or> name = None then Some (- 1, s)
      else if create_ret env \<noteq> SCIP_OKAY \<or> created_var env = NULL then Some (- 1, s)
      else if set_initial_ret env \<noteq> SCIP_OKAY then None
      else if set_removable_ret env \<noteq> SCIP_OKAY then None
      else if add_ret env \<noteq> SCIP_OKAY then
        (if release_ret env \<noteq> SCIP_OKAY then None else Some (- 1, s))
      else do {
        (varId, s1) \<leftarrow> registerVarHandle (created_var env) (var_realloc_ok env) s;
        if release_ret env \<noteq> SCIP_OKAY then None else Some (varId, s1)
      })"

text \<open>
  \<open>cons_create_ret\<close> and \<open>cons\<close> are the return code of \<open>SCIPcreateConsLinear\<close> and the
  constraint it stored, \<open>cons_add_ret\<close> the return code of \<open>SCIPaddCons\<close>; the result of
  \<open>SCIPreleaseCons\<close> is not looked at.
\<close>

definition scip_add_cons_linear ::
  "string option \<Rightarrow> SCIP_RETCODE \<Rightarrow> ptr \<Rightarrow> SCIP_RETCODE \<Rightarrow> bool \<Rightarrow> bridge \<Rightarrow> (int \<times> bridge) option" where
  "scip_add_cons_linear name cons_create_ret cons cons_add_ret realloc_ok s =
     (if scip_instance s = NULL \<or> name = None then Some (- 1, s)
      else if cons_create_ret \<noteq> SCIP_OKAY \<or> cons = NULL then Some (- 1, s)
      else if cons_add_ret \<noteq> SCIP_OKAY then Some (- 1, s)
      else registerConsHandle cons realloc_ok s)"

section \<open>What the external side does during a callout\<close>

text \<open>
  While a hook of the solver is suspended in a callout, the external routine calls back
  into the bridge. One run of an external handler is the sequence of the calls it makes,
  each with its arguments and with what the solver and \<open>realloc\<close> answer inside it: the
  functions that set the outputs of the pricing round, add columns and coefficients,
  switch the callbacks on and off, add to the problem and translate handles. The
  functions that tear the solver down or start it (\<open>scip_free\<close>, \<open>scip_reset\<close>,
  \<open>scip_problem_clear\<close>, \<open>scip_problem_begin\<close>, \<open>scip_create\<close>, \<open>scip_solve\<close>) are not
  among them: called from inside a hook they free or re-enter the solver that is
  running the hook, and what the solver does then is not defined by this file.
\<close>

datatype external_call =
    Call_set_result int
  | Call_set_lowerbound SCIP_Real
  | Call_set_stopearly int
  | Call_abort_round
  | Call_add_priced_var "string option" var_natives
  | Call_add_var_to_rows_batch int "(nat \<Rightarrow> int) option" "(nat \<Rightarrow> SCIP_Real) option" int
      "nat \<Rightarrow> SCIP_RETCODE"
  | Call_add_var_to_conss_batch int "(nat \<Rightarrow> int) option" "(nat \<Rightarrow> SCIP_Real) option" int
      "nat \<Rightarrow> SCIP_RETCODE"
  | Call_enable_redcost_callback int
  | Call_enable_farkas_callback int
  | Call_enable_incumbent_callback int
  | Call_enable_node_callback int
  | Call_add_var "string option" var_natives
  | Call_add_cons_linear "string option" SCIP_RETCODE ptr SCIP_RETCODE bool
  | Call_var_find_id "string option" ptr bool
  | Call_cons_find_id "string option" ptr bool
  | Call_var_get_transformed int trans_natives
  | Call_cons_get_transformed int trans_natives
  | Call_cons_get_row int ptr bool
  | Call_lp_row_duals_batch bool int lp_natives
  | Call_lp_row_farkas_batch bool int lp_natives

text \<open>One call: the state after it, the C return value going back to the caller.\<close>

fun exec_call :: "external_call \<Rightarrow> bridge \<Rightarrow> bridge option" where
  "exec_call (Call_set_result resultcode) s = Some (scip_pricer_set_result resultcode s)"
| "exec_call (Call_set_lowerbound lowerbound) s = Some (scip_pricer_set_lowerbound lowerbound s)"
| "exec_call (Call_set_stopearly stopearly) s = Some (scip_pricer_set_stopearly stopearly s)"
| "exec_call Call_abort_round s = Some (scip_pricer_abort_round s)"
| "exec_call (Call_add_priced_var name env) s =
     map_option snd (scip_pricer_add_priced_var name env s)"
| "exec_call (Call_add_var_to_rows_batch varId rowIds vals nnz row_rets) s =
     Some (snd (scip_pricer_add_var_to_rows_batch varId rowIds vals nnz row_rets s))"
| "exec_call (Call_add_var_to_conss_batch varId consIds vals nnz cons_rets) s =
     Some (snd (scip_pricer_add_var_to_conss_batch varId consIds vals nnz cons_rets s))"
| "exec_call (Call_enable_redcost_callback enable) s =
     Some (scip_pricer_enable_redcost_callback enable s)"
| "exec_call (Call_enable_farkas_callback enable) s =
     Some (scip_pricer_enable_farkas_callback enable s)"
| "exec_call (Call_enable_incumbent_callback enable) s =
     Some (scip_enable_incumbent_callback enable s)"
| "exec_call (Call_enable_node_callback enable) s = Some (scip_enable_node_callback enable s)"
| "exec_call (Call_add_var name env) s = map_option snd (scip_add_var name env s)"
| "exec_call (Call_add_cons_linear name cons_create_ret cons cons_add_ret realloc_ok) s =
     map_option snd (scip_add_cons_linear name cons_create_ret cons cons_add_ret realloc_ok s)"
| "exec_call (Call_var_find_id name found realloc_ok) s =
     map_option snd (scip_var_find_id name found realloc_ok s)"
| "exec_call (Call_cons_find_id name found realloc_ok) s =
     map_option snd (scip_cons_find_id name found realloc_ok s)"
| "exec_call (Call_var_get_transformed varId env) s =
     map_option snd (scip_var_get_transformed varId env s)"
| "exec_call (Call_cons_get_transformed consId env) s =
     map_option snd (scip_cons_get_transformed consId env s)"
| "exec_call (Call_cons_get_row consId row realloc_ok) s =
     map_option snd (scip_cons_get_row consId row realloc_ok s)"
| "exec_call (Call_lp_row_duals_batch out_null n env) s =
     map_option snd (scip_ctx_get_lp_row_duals_batch out_null n env s)"
| "exec_call (Call_lp_row_farkas_batch out_null n env) s =
     map_option snd (scip_ctx_get_lp_row_farkas_batch out_null n env s)"

fun run_calls :: "external_call list \<Rightarrow> bridge \<Rightarrow> bridge option" where
  "run_calls [] s = Some s"
| "run_calls (c # cs) s =
     (case exec_call c s of None \<Rightarrow> None | Some s' \<Rightarrow> run_calls cs s')"

text \<open>
  An external handler (\<open>Module.onIncumbent\<close>, \<open>Module.onNode\<close>, \<open>Module.onPricerRedcost\<close>,
  \<open>Module.onPricerFarkas\<close>) is None when the property is not set on \<open>Module\<close>, and
  otherwise the calls its run makes. \<open>call_out\<close> is one \<open>EM_ASM\<close> block: if the handler
  is there it is invoked, which the list of callouts records, and its calls are made.
\<close>

type_synonym handler = "external_call list option"

definition call_out :: "callout \<Rightarrow> handler \<Rightarrow> bridge \<Rightarrow> bridge option" where
  "call_out c h s =
     (case h of
        None \<Rightarrow> Some s
      | Some calls \<Rightarrow> run_calls calls (s\<lparr>callouts := callouts s @ [c]\<rparr>))"

section \<open>The hooks the solver invokes\<close>

text \<open>
  \<open>eventExecBestSol\<close>: \<open>sol\<close> is what \<open>SCIPgetBestSol\<close> returns and \<open>objval\<close> the
  objective value of that solution.
\<close>

definition eventExecBestSol :: "handler \<Rightarrow> ptr \<Rightarrow> SCIP_Real \<Rightarrow> bridge \<Rightarrow> bridge option" where
  "eventExecBestSol onIncumbent sol objval s =
     (if sol \<noteq> NULL then
        (if js_incumbent_callback s \<noteq> 0 then call_out (OnIncumbent objval) onIncumbent s
         else Some s)
      else Some s)"

definition eventExecNode ::
  "handler \<Rightarrow> SCIP_Real \<Rightarrow> SCIP_Real \<Rightarrow> SCIP_Real \<Rightarrow> bridge \<Rightarrow> bridge option" where
  "eventExecNode onNode dualbound primalbound nnodes s =
     (if js_node_callback s \<noteq> 0 then call_out (OnNode dualbound primalbound nnodes) onNode s
      else Some s)"

text \<open>
  The output arguments of the reduced-cost hook. A pointer argument is None when it is
  null and otherwise holds the value of the cell it points to, so the value before the
  call is what the solver had put there.
\<close>

record redcost_out =
  lowerbound_slot :: "SCIP_Real option"
  stopearly_slot :: "bool option"
  result_slot :: "SCIP_RESULT option"

definition store :: "'a \<Rightarrow> 'a option \<Rightarrow> 'a option" where
  "store v slot = (case slot of None \<Rightarrow> None | Some old \<Rightarrow> Some v)"

text \<open>\<open>pricerRedcostJs\<close>, in its three parts: lines 346 to 354, the callout, lines 364 to 385.\<close>

definition redcost_enter :: "bridge \<Rightarrow> bridge" where
  "redcost_enter s =
     s\<lparr>current_pricing_mode := 1,
       last_pricing_mode := 1,
       pricer_redcost_calls := pricer_redcost_calls s + 1,
       pricer_round := pricer_round s + 1,
       added_vars_this_call := 0,
       pending_pricer_result := SCIP_SUCCESS,
       pending_pricer_lowerbound := SCIP_INVALID,
       pending_pricer_stopearly := False,
       pending_pricer_abortround := False\<rparr>"

definition redcost_exit :: "redcost_out \<Rightarrow> bridge \<Rightarrow> redcost_out \<times> bridge" where
  "redcost_exit out s =
     (let s1 = (if pending_pricer_abortround s then
                  SCIPinterruptSolve (s\<lparr>pending_pricer_result := SCIP_DIDNOTRUN,
                                         pending_pricer_stopearly := True\<rparr>)
                else s);
          out1 = (if lowerbound_slot out \<noteq> None \<and> pending_pricer_lowerbound s1 \<noteq> SCIP_INVALID
                  then out\<lparr>lowerbound_slot := Some (pending_pricer_lowerbound s1)\<rparr>
                  else out);
          out2 = out1\<lparr>stopearly_slot := store (pending_pricer_stopearly s1) (stopearly_slot out1)\<rparr>;
          out3 = out2\<lparr>result_slot := store (pending_pricer_result s1) (result_slot out2)\<rparr>
      in (out3, s1\<lparr>last_pricing_result := pending_pricer_result s1,
                    current_pricing_mode := 0\<rparr>))"

definition pricerRedcostJs ::
  "handler \<Rightarrow> redcost_out \<Rightarrow> bridge \<Rightarrow> (redcost_out \<times> bridge) option" where
  "pricerRedcostJs onPricerRedcost out s = do {
     let s1 = redcost_enter s;
     s2 \<leftarrow> (if js_pricer_redcost_callback s1 \<noteq> 0 then call_out OnPricerRedcost onPricerRedcost s1
           else Some s1);
     Some (redcost_exit out s2)
   }"

text \<open>
  \<open>pricerFarkasJs\<close>: lines 392 to 398, the return at lines 400 to 408 when
  \<open>SCIPhasCurrentNodeLP\<close> says no, the callout, lines 418 to 430. Its one output argument
  is \<open>result\<close>.
\<close>

definition farkas_enter :: "bridge \<Rightarrow> bridge" where
  "farkas_enter s =
     s\<lparr>current_pricing_mode := 2,
       last_pricing_mode := 2,
       pricer_farkas_calls := pricer_farkas_calls s + 1,
       pricer_round := pricer_round s + 1,
       added_vars_this_call := 0,
       pending_pricer_result := SCIP_SUCCESS,
       pending_pricer_abortround := False\<rparr>"

definition farkas_no_lp :: "SCIP_RESULT option \<Rightarrow> bridge \<Rightarrow> SCIP_RESULT option \<times> bridge" where
  "farkas_no_lp result s =
     (let s1 = s\<lparr>pending_pricer_result := SCIP_DIDNOTRUN\<rparr>;
          s2 = s1\<lparr>last_pricing_result := pending_pricer_result s1, current_pricing_mode := 0\<rparr>
      in (store (pending_pricer_result s2) result, s2))"

definition farkas_exit :: "SCIP_RESULT option \<Rightarrow> bridge \<Rightarrow> SCIP_RESULT option \<times> bridge" where
  "farkas_exit result s =
     (let s1 = (if pending_pricer_abortround s then
                  SCIPinterruptSolve (s\<lparr>pending_pricer_result := SCIP_DIDNOTRUN\<rparr>)
                else s)
      in (store (pending_pricer_result s1) result,
          s1\<lparr>last_pricing_result := pending_pricer_result s1, current_pricing_mode := 0\<rparr>))"

definition pricerFarkasJs ::
  "handler \<Rightarrow> bool \<Rightarrow> SCIP_RESULT option \<Rightarrow> bridge \<Rightarrow> (SCIP_RESULT option \<times> bridge) option" where
  "pricerFarkasJs onPricerFarkas has_current_node_lp result s =
     (let s1 = farkas_enter s
      in if \<not> has_current_node_lp then Some (farkas_no_lp result s1)
         else do {
           s2 \<leftarrow> (if js_pricer_farkas_callback s1 \<noteq> 0 then call_out OnPricerFarkas onPricerFarkas s1
                 else Some s1);
           Some (farkas_exit result s2)
         })"

section \<open>Solving and the life cycle\<close>

text \<open>
  A hook that the solver invokes while \<open>SCIPsolve\<close> runs, with the external handler of
  that moment and with what the solver passes in. \<open>eventExecNode\<close> is not among them:
  \<open>includeEventHandlers\<close> installs \<open>eventExecBestSol\<close> only. What the solver then does
  with the outputs of a hook is the solver's business.
\<close>

datatype solver_event =
    Ev_best_sol handler ptr SCIP_Real
  | Ev_redcost handler redcost_out
  | Ev_farkas handler bool "SCIP_RESULT option"

fun run_event :: "solver_event \<Rightarrow> bridge \<Rightarrow> bridge option" where
  "run_event (Ev_best_sol onIncumbent sol objval) s = eventExecBestSol onIncumbent sol objval s"
| "run_event (Ev_redcost onPricerRedcost out) s =
     map_option snd (pricerRedcostJs onPricerRedcost out s)"
| "run_event (Ev_farkas onPricerFarkas has_current_node_lp result) s =
     map_option snd (pricerFarkasJs onPricerFarkas has_current_node_lp result s)"

fun run_events :: "solver_event list \<Rightarrow> bridge \<Rightarrow> bridge option" where
  "run_events [] s = Some s"
| "run_events (e # es) s =
     (case run_event e s of None \<Rightarrow> None | Some s' \<Rightarrow> run_events es s')"

text \<open>
  \<open>scip_solve\<close>: \<open>events\<close> are the hooks that \<open>SCIPsolve\<close> invokes before it returns
  \<open>retcode\<close>, and \<open>status\<close> is what \<open>SCIPgetStatus\<close> says afterwards.
\<close>

definition scip_solve ::
  "solver_event list \<Rightarrow> SCIP_RETCODE \<Rightarrow> SCIP_STATUS \<Rightarrow> bridge \<Rightarrow> (int \<times> bridge) option" where
  "scip_solve events retcode status s =
     (if scip_instance s = NULL then Some (- 1, s)
      else do {
        s1 \<leftarrow> run_events events (s\<lparr>current_pricing_mode := 0, added_vars_this_call := 0\<rparr>);
        if retcode \<noteq> SCIP_OKAY then Some (- 1, s1)
        else Some (case status of
                     SCIP_STATUS_OPTIMAL \<Rightarrow> 0
                   | SCIP_STATUS_INFEASIBLE \<Rightarrow> 1
                   | SCIP_STATUS_UNBOUNDED \<Rightarrow> 2
                   | SCIP_STATUS_TIMELIMIT \<Rightarrow> 3
                   | _ \<Rightarrow> 4, s1)
      })"

text \<open>
  \<open>scip_create\<close>: the return code of \<open>SCIPcreate\<close> with the pointer it left in
  \<open>scip_instance\<close>, and the return codes of \<open>SCIPincludeDefaultPlugins\<close>,
  \<open>includeEventHandlers\<close> and \<open>SCIPcatchEvent\<close>. \<open>SCIP_CALL\<close> returns the code of the
  first call that fails.
\<close>

definition scip_create ::
  "SCIP_RETCODE \<Rightarrow> ptr \<Rightarrow> SCIP_RETCODE \<Rightarrow> SCIP_RETCODE \<Rightarrow> SCIP_RETCODE \<Rightarrow> bridge \<Rightarrow> int \<times> bridge" where
  "scip_create new_ret instance plugins_ret handlers_ret catch_ret s =
     (if scip_instance s \<noteq> NULL then (0, s)
      else let s1 = s\<lparr>scip_instance := instance\<rparr>
           in if new_ret \<noteq> SCIP_OKAY then (new_ret, s1)
              else if plugins_ret \<noteq> SCIP_OKAY then (plugins_ret, s1)
              else if handlers_ret \<noteq> SCIP_OKAY then (handlers_ret, s1)
              else if catch_ret \<noteq> SCIP_OKAY then (catch_ret, s1)
              else (1, s1))"

definition forget_pricer :: "bridge \<Rightarrow> bridge" where
  "forget_pricer s =
     s\<lparr>js_pricer := NULL, js_pricer_redcost_callback := 0, js_pricer_farkas_callback := 0\<rparr>"

definition scip_free :: "bridge \<Rightarrow> bridge" where
  "scip_free s =
     (let s1 = (if scip_instance s \<noteq> NULL then (clearCurrentProblem s)\<lparr>scip_instance := NULL\<rparr>
                else s)
      in clearRegistries (resetPricingState (forget_pricer s1)))"

definition scip_problem_clear :: "bridge \<Rightarrow> int \<times> bridge" where
  "scip_problem_clear s =
     (if scip_instance s = NULL then (0, s)
      else (1, forget_pricer (clearRegistries (resetPricingState (clearCurrentProblem s)))))"

text \<open>
  \<open>scip_problem_begin\<close>: \<open>create_prob_ret\<close> and \<open>set_sense_ret\<close> are the return codes of
  \<open>SCIPcreateProbBasic\<close> and \<open>SCIPsetObjsense\<close>.
\<close>

definition scip_problem_begin ::
  "string option \<Rightarrow> int \<Rightarrow> SCIP_RETCODE \<Rightarrow> SCIP_RETCODE \<Rightarrow> bridge \<Rightarrow> int \<times> bridge" where
  "scip_problem_begin name maximize create_prob_ret set_sense_ret s =
     (if scip_instance s = NULL then (0, s)
      else let s1 = forget_pricer (clearRegistries (resetPricingState (clearCurrentProblem s)))
           in if create_prob_ret \<noteq> SCIP_OKAY then (0, s1)
              else if set_sense_ret \<noteq> SCIP_OKAY then (0, s1)
              else (1, s1))"

definition scip_reset :: "bridge \<Rightarrow> bridge" where
  "scip_reset s = forget_pricer (clearRegistries (resetPricingState (clearCurrentProblem s)))"

text \<open>
  \<open>scip_pricer_include\<close>: \<open>include_ret\<close> is the return code of \<open>SCIPincludePricerBasic\<close>
  and \<open>pricer\<close> the pointer it left in \<open>js_pricer\<close>.
\<close>

definition scip_pricer_include ::
  "string option \<Rightarrow> string option \<Rightarrow> SCIP_RETCODE \<Rightarrow> ptr \<Rightarrow> bridge \<Rightarrow> int \<times> bridge" where
  "scip_pricer_include name desc include_ret pricer s =
     (if scip_instance s = NULL \<or> name = None \<or> desc = None then (0, s)
      else if js_pricer s \<noteq> NULL then (1, s)
      else (if include_ret = SCIP_OKAY then 1 else 0, s\<lparr>js_pricer := pricer\<rparr>))"

text \<open>
  A call of the exported interface from outside any hook, and a run of the program: the
  calls made, in order, from the state the static initialisers give.
\<close>

datatype api_call =
    Api_create SCIP_RETCODE ptr SCIP_RETCODE SCIP_RETCODE SCIP_RETCODE
  | Api_free
  | Api_problem_clear
  | Api_problem_begin "string option" int SCIP_RETCODE SCIP_RETCODE
  | Api_reset
  | Api_pricer_include "string option" "string option" SCIP_RETCODE ptr
  | Api_solve "solver_event list" SCIP_RETCODE SCIP_STATUS
  | Api_call external_call

fun api_step :: "api_call \<Rightarrow> bridge \<Rightarrow> bridge option" where
  "api_step (Api_create new_ret instance plugins_ret handlers_ret catch_ret) s =
     Some (snd (scip_create new_ret instance plugins_ret handlers_ret catch_ret s))"
| "api_step Api_free s = Some (scip_free s)"
| "api_step Api_problem_clear s = Some (snd (scip_problem_clear s))"
| "api_step (Api_problem_begin name maximize create_prob_ret set_sense_ret) s =
     Some (snd (scip_problem_begin name maximize create_prob_ret set_sense_ret s))"
| "api_step Api_reset s = Some (scip_reset s)"
| "api_step (Api_pricer_include name desc include_ret pricer) s =
     Some (snd (scip_pricer_include name desc include_ret pricer s))"
| "api_step (Api_solve events retcode status) s =
     map_option snd (scip_solve events retcode status s)"
| "api_step (Api_call c) s = exec_call c s"

fun run_api :: "api_call list \<Rightarrow> bridge \<Rightarrow> bridge option" where
  "run_api [] s = Some s"
| "run_api (c # cs) s =
     (case api_step c s of None \<Rightarrow> None | Some s' \<Rightarrow> run_api cs s')"

section \<open>Notions used to state the properties\<close>

text \<open>The calls an external handler makes when it is invoked: none if it is not there.\<close>

definition handler_calls :: "handler \<Rightarrow> external_call list" where
  "handler_calls h = (case h of None \<Rightarrow> [] | Some calls \<Rightarrow> calls)"

text \<open>
  The only calls that may not return are the two that wrap solver calls in
  \<open>SCIP_CALL_ABORT\<close>, and only when one of those solver calls fails.
\<close>

fun may_end_process :: "external_call \<Rightarrow> bool" where
  "may_end_process (Call_add_priced_var name env) =
     (set_initial_ret env \<noteq> SCIP_OKAY \<or> set_removable_ret env \<noteq> SCIP_OKAY \<or>
      release_ret env \<noteq> SCIP_OKAY)"
| "may_end_process (Call_add_var name env) =
     (set_initial_ret env \<noteq> SCIP_OKAY \<or> set_removable_ret env \<noteq> SCIP_OKAY \<or>
      release_ret env \<noteq> SCIP_OKAY)"
| "may_end_process c = False"


text \<open>The calls that the handler of a hook makes when it is invoked.\<close>

fun event_calls :: "solver_event \<Rightarrow> external_call list" where
  "event_calls (Ev_best_sol h sol objval) = handler_calls h"
| "event_calls (Ev_redcost h out) = handler_calls h"
| "event_calls (Ev_farkas h lp result) = handler_calls h"


text \<open>
  What no call of an external handler changes: the solver instance, the pricer, the
  pricing mode, the three call counters and the callouts recorded; and what a call can
  only move one way: the interrupt requests never decrease and a round marked for abort
  stays marked.
\<close>

definition kept_by_calls :: "bridge \<Rightarrow> bridge \<Rightarrow> bool" where
  "kept_by_calls s s' \<longleftrightarrow>
     scip_instance s' = scip_instance s \<and>
     current_pricing_mode s' = current_pricing_mode s \<and>
     js_pricer s' = js_pricer s \<and>
     pricer_redcost_calls s' = pricer_redcost_calls s \<and>
     pricer_farkas_calls s' = pricer_farkas_calls s \<and>
     pricer_round s' = pricer_round s \<and>
     last_pricing_mode s' = last_pricing_mode s \<and>
     callouts s' = callouts s \<and>
     interrupt_requests s \<le> interrupt_requests s' \<and>
     (pending_pricer_abortround s \<longrightarrow> pending_pricer_abortround s')"

text \<open>
  The state in which no solver instance exists has empty registries: every function that
  registers a handle returns early without an instance, and \<open>scip_free\<close>, the one place
  that drops the instance, clears the registries.
\<close>

definition registries_follow_instance :: "bridge \<Rightarrow> bool" where
  "registries_follow_instance s \<longleftrightarrow>
     (scip_instance s = NULL \<longrightarrow>
        reg_items (var_registry s) = [] \<and> reg_items (cons_registry s) = [] \<and>
        reg_items (row_registry s) = [])"

section \<open>Properties of the registries\<close>

lemma growCapacity_returns:
  "0 < c \<Longrightarrow> \<exists>c'. growCapacity c n = Some c' \<and> n \<le> c' \<and> 0 < c'"
proof (induction "n - c" arbitrary: c rule: less_induct)
  case less
  show ?case
  proof (cases "c < n")
    case True
    with less.prems have "n - c * 2 < n - c" by simp
    from less.hyps[OF this] less.prems obtain c' where
      "growCapacity (c * 2) n = Some c'" "n \<le> c'" "0 < c'" by auto
    with True show ?thesis by (subst growCapacity.simps) simp
  next
    case False
    with less.prems show ?thesis by (subst growCapacity.simps) simp
  qed
qed

lemma ensureRegistryCapacity_returns:
  "\<exists>ok r'. ensureRegistryCapacity needed a r = Some (ok, r') \<and> reg_items r' = reg_items r
     \<and> (ok = 0 \<or> ok = 1) \<and> (a \<longrightarrow> ok = 1) \<and> (ok = 1 \<longrightarrow> needed \<le> reg_capacity r')
     \<and> (ok = 0 \<longrightarrow> r' = r)"
proof -
  have "0 < (if reg_capacity r = 0 then 64 else reg_capacity r)" by simp
  from growCapacity_returns[OF this, of needed]
  obtain c' where "growCapacity (if reg_capacity r = 0 then 64 else reg_capacity r) needed = Some c'"
     "needed \<le> c'" by blast
  then show ?thesis by (auto simp: ensureRegistryCapacity_def)
qed

lemma scanRegistry_None: "scanRegistry xs obj i = None \<longleftrightarrow> obj \<notin> set xs"
  by (induction xs arbitrary: i) auto

lemma scanRegistry_Some:
  "scanRegistry xs obj i = Some h \<Longrightarrow> i < h \<and> h \<le> i + int (length xs) \<and> xs ! nat (h - i - 1) = obj"
proof (induction xs arbitrary: i)
  case Nil then show ?case by simp
next
  case (Cons x xs)
  show ?case
  proof (cases "x = obj")
    case True with Cons.prems show ?thesis by simp
  next
    case False
    with Cons.prems have "scanRegistry xs obj (i + 1) = Some h" by simp
    from Cons.IH[OF this] have *: "i + 1 < h" "h \<le> i + 1 + int (length xs)" "xs ! nat (h - (i + 1) - 1) = obj" by auto
    have "nat (h - i - 1) = Suc (nat (h - (i + 1) - 1))" using * by linarith
    with * show ?thesis by simp
  qed
qed

lemma scanRegistry_append:
  "scanRegistry xs obj i = Some h \<Longrightarrow> scanRegistry (xs @ ys) obj i = Some h"
  by (induction xs arbitrary: i) (auto split: if_splits)

lemma scanRegistry_snoc:
  "obj \<notin> set xs \<Longrightarrow> scanRegistry (xs @ [obj]) obj i = Some (i + int (length xs) + 1)"
  by (induction xs arbitrary: i) auto

lemma registerHandle_cases:
  "\<exists>h r'. registerHandle obj a r = Some (h, r') \<and>
     ((h = - 1 \<and> r' = r \<and> (obj = NULL \<or> \<not> a)) \<or>
      (0 < h \<and> obj \<noteq> NULL \<and> scanRegistry (reg_items r') obj 0 = Some h \<and>
        (r' = r \<or> (obj \<notin> set (reg_items r) \<and> reg_items r' = reg_items r @ [obj]))))"
proof (cases "obj = NULL")
  case True then show ?thesis by (simp add: registerHandle_def)
next
  case False
  show ?thesis
  proof (cases "scanRegistry (reg_items r) obj 0")
    case (Some h)
    with False scanRegistry_Some[OF Some] show ?thesis by (simp add: registerHandle_def)
  next
    case None
    then have notin: "obj \<notin> set (reg_items r)" by (simp add: scanRegistry_None)
    obtain ok r' where e: "ensureRegistryCapacity (registry_size r + 1) a r = Some (ok, r')"
      "reg_items r' = reg_items r" "ok = 0 \<or> ok = 1" "a \<longrightarrow> ok = 1" "ok = 0 \<longrightarrow> r' = r"
      using ensureRegistryCapacity_returns[of "registry_size r + 1" a r] by blast
    show ?thesis
    proof (cases "ok = 0")
      case True
      with e False None show ?thesis by (auto simp: registerHandle_def)
    next
      case F: False
      with e False None notin show ?thesis
        by (auto simp: registerHandle_def registry_size_def scanRegistry_snoc)
    qed
  qed
qed

lemma scan_getByHandle:
  "scanRegistry (reg_items r) obj 0 = Some h \<Longrightarrow> 0 < h \<and> getByHandle h r = obj"
  using scanRegistry_Some[of "reg_items r" obj 0 h]
  by (simp add: getByHandle_def registry_size_def)

lemma registerHandle_keeps_scan:
  assumes "registerHandle q a r = Some (h', r')" and "scanRegistry (reg_items r) obj 0 = Some h"
  shows "scanRegistry (reg_items r') obj 0 = Some h"
  using registerHandle_cases[of q a r] assms by (auto simp: scanRegistry_append)

lemma registerAll_keeps_scan:
  "scanRegistry (reg_items r) obj 0 = Some h \<Longrightarrow>
     \<exists>r'. registerAll calls r = Some r' \<and> scanRegistry (reg_items r') obj 0 = Some h"
proof (induction calls arbitrary: r)
  case Nil then show ?case by simp
next
  case (Cons c calls)
  obtain q a where c: "c = (q, a)" by (cases c)
  obtain h' r' where r: "registerHandle q a r = Some (h', r')"
    using registerHandle_cases[of q a r] by blast
  from registerHandle_keeps_scan[OF r Cons.prems] Cons.IH[of r'] c r show ?case by simp
qed

lemma registerHandle_again:
  "scanRegistry (reg_items r) obj 0 = Some h \<Longrightarrow> obj \<noteq> NULL \<Longrightarrow> registerHandle obj a r = Some (h, r)"
  by (simp add: registerHandle_def)

lemma registerHandle_other:
  assumes s: "scanRegistry (reg_items r) obj 0 = Some h" and ne: "obj' \<noteq> obj"
  shows "\<exists>h' r'. registerHandle obj' a r = Some (h', r') \<and> h' \<noteq> h"
proof -
  from registerHandle_cases[of obj' a r] obtain h' r' where
    r: "registerHandle obj' a r = Some (h', r')" and
    c: "h' = - 1 \<or> scanRegistry (reg_items r') obj' 0 = Some h'" by blast
  from scan_getByHandle[OF s] have pos: "0 < h" by simp
  have "h' \<noteq> h"
  proof
    assume eq: "h' = h"
    with c pos have "scanRegistry (reg_items r') obj' 0 = Some h" by auto
    from scan_getByHandle[OF this] scan_getByHandle[OF registerHandle_keeps_scan[OF r s]] ne
    show False by simp
  qed
  with r show ?thesis by blast
qed

text \<open>
  C1. Registering an object always returns. When it returns a handle (anything but the
  failure value -1, which is what a null object or a failed \<open>realloc\<close> gives, and never
  what a non-null object gets when \<open>realloc\<close> succeeds), the handle is positive and
  resolves to the object; after any further sequence of register calls on the registry
  it still resolves to the object, registering the object again returns the same handle
  and leaves the registry as it is, and registering any other object returns something
  else.
\<close>

theorem register_resolve:
  "\<exists>h r1. registerHandle obj realloc_ok r = Some (h, r1) \<and>
     (obj \<noteq> NULL \<and> realloc_ok \<longrightarrow> h \<noteq> - 1) \<and>
     (h \<noteq> - 1 \<longrightarrow>
        0 < h \<and> getByHandle h r1 = obj \<and>
        (\<forall>calls. \<exists>r2. registerAll calls r1 = Some r2 \<and>
           getByHandle h r2 = obj \<and>
           (\<forall>ok'. registerHandle obj ok' r2 = Some (h, r2)) \<and>
           (\<forall>obj' ok'. obj' \<noteq> obj \<longrightarrow>
              (\<exists>h' r3. registerHandle obj' ok' r2 = Some (h', r3) \<and> h' \<noteq> h))))"
proof -
  from registerHandle_cases[of obj realloc_ok r] obtain h r1 where
    r: "registerHandle obj realloc_ok r = Some (h, r1)" and
    c: "(h = - 1 \<and> (obj = NULL \<or> \<not> realloc_ok)) \<or>
        (obj \<noteq> NULL \<and> scanRegistry (reg_items r1) obj 0 = Some h)" by blast
  have "0 < h \<and> getByHandle h r1 = obj \<and>
        (\<forall>calls. \<exists>r2. registerAll calls r1 = Some r2 \<and>
           getByHandle h r2 = obj \<and>
           (\<forall>ok'. registerHandle obj ok' r2 = Some (h, r2)) \<and>
           (\<forall>obj' ok'. obj' \<noteq> obj \<longrightarrow>
              (\<exists>h' r3. registerHandle obj' ok' r2 = Some (h', r3) \<and> h' \<noteq> h)))"
    if "h \<noteq> - 1"
  proof -
    from c that have nn: "obj \<noteq> NULL" and s: "scanRegistry (reg_items r1) obj 0 = Some h" by auto
    have later: "\<exists>r2. registerAll calls r1 = Some r2 \<and>
           getByHandle h r2 = obj \<and>
           (\<forall>ok'. registerHandle obj ok' r2 = Some (h, r2)) \<and>
           (\<forall>obj' ok'. obj' \<noteq> obj \<longrightarrow>
              (\<exists>h' r3. registerHandle obj' ok' r2 = Some (h', r3) \<and> h' \<noteq> h))" for calls
    proof -
      from registerAll_keeps_scan[OF s, of calls] obtain r2 where
        a: "registerAll calls r1 = Some r2" and s2: "scanRegistry (reg_items r2) obj 0 = Some h" by blast
      from a scan_getByHandle[OF s2] registerHandle_again[OF s2 nn] registerHandle_other[OF s2]
      show ?thesis by blast
    qed
    from scan_getByHandle[OF s] later show ?thesis by blast
  qed
  moreover have "obj \<noteq> NULL \<and> realloc_ok \<longrightarrow> h \<noteq> - 1"
    using c scan_getByHandle[of r1 obj h] by auto
  ultimately show ?thesis using r by blast
qed

lemma growCapacity_64_1: "growCapacity 64 (Suc 0) = Some 64"
  by (subst growCapacity.simps) simp

text \<open>
  A failed \<open>realloc\<close> on the first registration: the call returns -1, and -1 resolves to
  the null pointer, not to the object.
\<close>

theorem register_resolve_counterexample:
  "registerHandle 5 False clearRegistry = Some (- 1, clearRegistry) \<and>
   getByHandle (- 1) clearRegistry \<noteq> 5"
  by (simp add: registerHandle_def ensureRegistryCapacity_def clearRegistry_def registry_size_def
      getByHandle_def growCapacity_64_1)

theorem register_resolve_witness:
  "registerHandle 7 True clearRegistry = Some (1, \<lparr>reg_items = [7], reg_capacity = 64\<rparr>) \<and>
   (1::int) \<noteq> - 1 \<and>
   getByHandle 1 \<lparr>reg_items = [7], reg_capacity = 64\<rparr> = 7 \<and>
   registerAll [(9, True), (7, False)] \<lparr>reg_items = [7], reg_capacity = 64\<rparr>
     = Some \<lparr>reg_items = [7, 9], reg_capacity = 64\<rparr> \<and>
   getByHandle 1 \<lparr>reg_items = [7, 9], reg_capacity = 64\<rparr> = 7 \<and>
   registerHandle 7 False \<lparr>reg_items = [7, 9], reg_capacity = 64\<rparr>
     = Some (1, \<lparr>reg_items = [7, 9], reg_capacity = 64\<rparr>) \<and>
   registerHandle 9 False \<lparr>reg_items = [7, 9], reg_capacity = 64\<rparr>
     = Some (2, \<lparr>reg_items = [7, 9], reg_capacity = 64\<rparr>)"
proof -
  have e: "registerHandle 7 True clearRegistry = Some (1, \<lparr>reg_items = [7], reg_capacity = 64\<rparr>)"
    by (simp add: registerHandle_def ensureRegistryCapacity_def clearRegistry_def registry_size_def growCapacity_64_1)
  have a: "registerAll [(9, True), (7, False)] \<lparr>reg_items = [7], reg_capacity = 64\<rparr>
     = Some \<lparr>reg_items = [7, 9], reg_capacity = 64\<rparr>"
    by (simp add: registerHandle_def ensureRegistryCapacity_def registry_size_def)
  from register_resolve[of 7 True clearRegistry] e
  have "\<forall>calls. \<exists>r2. registerAll calls \<lparr>reg_items = [7], reg_capacity = 64\<rparr> = Some r2 \<and>
           getByHandle 1 r2 = 7 \<and>
           (\<forall>ok'. registerHandle 7 ok' r2 = Some (1, r2)) \<and>
           (\<forall>obj' ok'. obj' \<noteq> 7 \<longrightarrow>
              (\<exists>h' r3. registerHandle obj' ok' r2 = Some (h', r3) \<and> h' \<noteq> 1))"
    and g: "getByHandle 1 \<lparr>reg_items = [7], reg_capacity = 64\<rparr> = 7"
    by auto
  then obtain r2 where "registerAll [(9, True), (7, False)] \<lparr>reg_items = [7], reg_capacity = 64\<rparr> = Some r2"
     "getByHandle 1 r2 = 7" "\<forall>ok'. registerHandle 7 ok' r2 = Some (1, r2)" by blast
  with a have "getByHandle 1 \<lparr>reg_items = [7, 9], reg_capacity = 64\<rparr> = 7"
    "registerHandle 7 False \<lparr>reg_items = [7, 9], reg_capacity = 64\<rparr>
     = Some (1, \<lparr>reg_items = [7, 9], reg_capacity = 64\<rparr>)" by auto
  moreover have "registerHandle 9 False \<lparr>reg_items = [7, 9], reg_capacity = 64\<rparr>
     = Some (2, \<lparr>reg_items = [7, 9], reg_capacity = 64\<rparr>)"
    by (simp add: registerHandle_def)
  ultimately show ?thesis using e a g by simp
qed

section \<open>What a call of the external side can change\<close>

lemma registerVarHandle_returns:
  "\<exists>h r. registerVarHandle v a s = Some (h, s\<lparr>var_registry := r\<rparr>)"
proof -
  from registerHandle_cases[of v a "var_registry s"] obtain h r where
    "registerHandle v a (var_registry s) = Some (h, r)" by blast
  then have "registerVarHandle v a s = Some (h, s\<lparr>var_registry := r\<rparr>)"
    by (simp add: registerVarHandle_def)
  then show ?thesis by blast
qed

lemma registerConsHandle_returns:
  "\<exists>h r. registerConsHandle v a s = Some (h, s\<lparr>cons_registry := r\<rparr>)"
proof -
  from registerHandle_cases[of v a "cons_registry s"] obtain h r where
    "registerHandle v a (cons_registry s) = Some (h, r)" by blast
  then have "registerConsHandle v a s = Some (h, s\<lparr>cons_registry := r\<rparr>)"
    by (simp add: registerConsHandle_def)
  then show ?thesis by blast
qed

lemma registerRowHandle_returns:
  "\<exists>h r. registerRowHandle v a s = Some (h, s\<lparr>row_registry := r\<rparr>)"
proof -
  from registerHandle_cases[of v a "row_registry s"] obtain h r where
    "registerHandle v a (row_registry s) = Some (h, r)" by blast
  then have "registerRowHandle v a s = Some (h, s\<lparr>row_registry := r\<rparr>)"
    by (simp add: registerRowHandle_def)
  then show ?thesis by blast
qed

lemma register_lp_rows_returns:
  "\<exists>r. register_lp_rows rows reallocs is s = Some (s\<lparr>row_registry := r\<rparr>)"
proof (induction "is" arbitrary: s)
  case Nil
  have "s = s\<lparr>row_registry := row_registry s\<rparr>" by simp
  then show ?case by (metis register_lp_rows.simps(1))
next
  case (Cons i "is")
  from registerRowHandle_returns[of "rows i" "reallocs i" s] obtain h r where
    a: "registerRowHandle (rows i) (reallocs i) s = Some (h, s\<lparr>row_registry := r\<rparr>)" by blast
  from Cons.IH[of "s\<lparr>row_registry := r\<rparr>"] a show ?case by auto
qed

lemma kept_by_calls_refl: "kept_by_calls s s"
  by (simp add: kept_by_calls_def)


lemma kept_var: "kept_by_calls s (s\<lparr>var_registry := r\<rparr>)"
  by (simp add: kept_by_calls_def)
lemma kept_cons: "kept_by_calls s (s\<lparr>cons_registry := r\<rparr>)"
  by (simp add: kept_by_calls_def)
lemma kept_row: "kept_by_calls s (s\<lparr>row_registry := r\<rparr>)"
  by (simp add: kept_by_calls_def)
lemma kept_mark_abort: "kept_by_calls s (mark_abort s)"
  by (simp add: kept_by_calls_def mark_abort_def)

lemma kept_priced:
  "kept_by_calls s (s\<lparr>var_registry := r, priced_vars_added := a, added_vars_this_call := b\<rparr>)"
  by (simp add: kept_by_calls_def)

lemma add_priced_var_shape:
  "scip_pricer_add_priced_var name env s = Some (h, s') \<Longrightarrow>
     (h = - 1 \<and> s' = mark_abort s) \<or>
     (\<exists>r. s' = s\<lparr>var_registry := r, priced_vars_added := priced_vars_added s + 1,
                     added_vars_this_call := added_vars_this_call s + 1\<rparr>)"
proof -
  assume a: "scip_pricer_add_priced_var name env s = Some (h, s')"
  from registerVarHandle_returns[of "created_var env" "var_realloc_ok env" s] obtain h0 r where
    r: "registerVarHandle (created_var env) (var_realloc_ok env) s = Some (h0, s\<lparr>var_registry := r\<rparr>)"
    by blast
  from a show ?thesis
    unfolding scip_pricer_add_priced_var_def
    by (simp add: r Let_def split: if_splits) blast
qed

lemma add_priced_var_kept:
  "scip_pricer_add_priced_var name env s = Some (h, s') \<Longrightarrow> kept_by_calls s s'"
  using add_priced_var_shape[of name env s h s'] kept_mark_abort[of s] kept_priced[of s]
  by auto

lemma kept_interrupt_abort:
  "kept_by_calls s (SCIPinterruptSolve ((mark_abort s)\<lparr>pending_pricer_stopearly := True\<rparr>))"
  by (simp add: kept_by_calls_def mark_abort_def SCIPinterruptSolve_def)

lemma rows_batch_kept:
  "kept_by_calls s (snd (scip_pricer_add_var_to_rows_batch varId rowIds vals nnz rets s))"
  by (simp add: scip_pricer_add_var_to_rows_batch_def kept_mark_abort kept_interrupt_abort
      kept_by_calls_refl split: option.splits)

lemma conss_batch_kept:
  "kept_by_calls s (snd (scip_pricer_add_var_to_conss_batch varId rowIds vals nnz rets s))"
  by (simp add: scip_pricer_add_var_to_conss_batch_def kept_mark_abort kept_interrupt_abort
      kept_by_calls_refl split: option.splits)

lemma add_var_shape:
  "scip_add_var name env s = Some (h, s') \<Longrightarrow> s' = s \<or> (\<exists>r. s' = s\<lparr>var_registry := r\<rparr>)"
proof -
  assume a: "scip_add_var name env s = Some (h, s')"
  from registerVarHandle_returns[of "created_var env" "var_realloc_ok env" s] obtain h0 r where
    r: "registerVarHandle (created_var env) (var_realloc_ok env) s = Some (h0, s\<lparr>var_registry := r\<rparr>)"
    by blast
  from a show ?thesis
    unfolding scip_add_var_def
    by (auto simp: r split: if_splits)
qed

lemma add_var_kept:
  "scip_add_var name env s = Some (h, s') \<Longrightarrow> kept_by_calls s s'"
  using add_var_shape[of name env s h s'] kept_by_calls_refl[of s] kept_var[of s]
  by auto

lemma add_cons_linear_shape:
  "scip_add_cons_linear name cr cons ar a s = Some (h, s') \<Longrightarrow> s' = s \<or> (\<exists>r. s' = s\<lparr>cons_registry := r\<rparr>)"
proof -
  assume a: "scip_add_cons_linear name cr cons ar a s = Some (h, s')"
  from registerConsHandle_returns[of "cons" "a" s] obtain h0 r where
    r: "registerConsHandle (cons) (a) s = Some (h0, s\<lparr>cons_registry := r\<rparr>)"
    by blast
  from a show ?thesis
    unfolding scip_add_cons_linear_def
    by (auto simp: r split: if_splits)
qed

lemma add_cons_linear_kept:
  "scip_add_cons_linear name cr cons ar a s = Some (h, s') \<Longrightarrow> kept_by_calls s s'"
  using add_cons_linear_shape[of name cr cons ar a s h s'] kept_by_calls_refl[of s] kept_cons[of s]
  by auto

lemma var_find_id_shape:
  "scip_var_find_id name found a s = Some (h, s') \<Longrightarrow> s' = s \<or> (\<exists>r. s' = s\<lparr>var_registry := r\<rparr>)"
proof -
  assume a: "scip_var_find_id name found a s = Some (h, s')"
  from registerVarHandle_returns[of "found" "a" s] obtain h0 r where
    r: "registerVarHandle (found) (a) s = Some (h0, s\<lparr>var_registry := r\<rparr>)"
    by blast
  from a show ?thesis
    unfolding scip_var_find_id_def
    by (auto simp: r split: if_splits)
qed

lemma var_find_id_kept:
  "scip_var_find_id name found a s = Some (h, s') \<Longrightarrow> kept_by_calls s s'"
  using var_find_id_shape[of name found a s h s'] kept_by_calls_refl[of s] kept_var[of s]
  by auto

lemma cons_find_id_shape:
  "scip_cons_find_id name found a s = Some (h, s') \<Longrightarrow> s' = s \<or> (\<exists>r. s' = s\<lparr>cons_registry := r\<rparr>)"
proof -
  assume a: "scip_cons_find_id name found a s = Some (h, s')"
  from registerConsHandle_returns[of "found" "a" s] obtain h0 r where
    r: "registerConsHandle (found) (a) s = Some (h0, s\<lparr>cons_registry := r\<rparr>)"
    by blast
  from a show ?thesis
    unfolding scip_cons_find_id_def
    by (auto simp: r split: if_splits)
qed

lemma cons_find_id_kept:
  "scip_cons_find_id name found a s = Some (h, s') \<Longrightarrow> kept_by_calls s s'"
  using cons_find_id_shape[of name found a s h s'] kept_by_calls_refl[of s] kept_cons[of s]
  by auto

lemma var_get_transformed_shape:
  "scip_var_get_transformed varId env s = Some (h, s') \<Longrightarrow> s' = s \<or> (\<exists>r. s' = s\<lparr>var_registry := r\<rparr>)"
proof -
  assume a: "scip_var_get_transformed varId env s = Some (h, s')"
  from registerVarHandle_returns[of "trans_obj env" "trans_realloc_ok env" s] obtain h0 r where
    r: "registerVarHandle (trans_obj env) (trans_realloc_ok env) s = Some (h0, s\<lparr>var_registry := r\<rparr>)"
    by blast
  from a show ?thesis
    unfolding scip_var_get_transformed_def
    by (auto simp: r split: if_splits)
qed

lemma var_get_transformed_kept:
  "scip_var_get_transformed varId env s = Some (h, s') \<Longrightarrow> kept_by_calls s s'"
  using var_get_transformed_shape[of varId env s h s'] kept_by_calls_refl[of s] kept_var[of s]
  by auto

lemma cons_get_transformed_shape:
  "scip_cons_get_transformed consId env s = Some (h, s') \<Longrightarrow> s' = s \<or> (\<exists>r. s' = s\<lparr>cons_registry := r\<rparr>)"
proof -
  assume a: "scip_cons_get_transformed consId env s = Some (h, s')"
  from registerConsHandle_returns[of "trans_obj env" "trans_realloc_ok env" s] obtain h0 r where
    r: "registerConsHandle (trans_obj env) (trans_realloc_ok env) s = Some (h0, s\<lparr>cons_registry := r\<rparr>)"
    by blast
  from a show ?thesis
    unfolding scip_cons_get_transformed_def
    by (auto simp: r split: if_splits)
qed

lemma cons_get_transformed_kept:
  "scip_cons_get_transformed consId env s = Some (h, s') \<Longrightarrow> kept_by_calls s s'"
  using cons_get_transformed_shape[of consId env s h s'] kept_by_calls_refl[of s] kept_cons[of s]
  by auto

lemma cons_get_row_shape:
  "scip_cons_get_row consId row a s = Some (h, s') \<Longrightarrow> s' = s \<or> (\<exists>r. s' = s\<lparr>row_registry := r\<rparr>)"
proof -
  assume a: "scip_cons_get_row consId row a s = Some (h, s')"
  from registerRowHandle_returns[of "row" "a" s] obtain h0 r where
    r: "registerRowHandle (row) (a) s = Some (h0, s\<lparr>row_registry := r\<rparr>)"
    by blast
  from a show ?thesis
    unfolding scip_cons_get_row_def
    by (auto simp: r split: if_splits)
qed

lemma cons_get_row_kept:
  "scip_cons_get_row consId row a s = Some (h, s') \<Longrightarrow> kept_by_calls s s'"
  using cons_get_row_shape[of consId row a s h s'] kept_by_calls_refl[of s] kept_row[of s]
  by auto

lemma duals_batch_shape:
  "scip_ctx_get_lp_row_duals_batch out_null n env s = Some (h, s') \<Longrightarrow>
     s' = s \<or> (\<exists>r. s' = s\<lparr>row_registry := r\<rparr>)"
proof -
  assume a: "scip_ctx_get_lp_row_duals_batch out_null n env s = Some (h, s')"
  from register_lp_rows_returns[of "lp_rows env" "row_realloc_ok env"
      "[0..<nat (if n < scip_ctx_get_n_lp_rows env s then n else scip_ctx_get_n_lp_rows env s)]" s]
  obtain r where
    r: "register_lp_rows (lp_rows env) (row_realloc_ok env)
          [0..<nat (if n < scip_ctx_get_n_lp_rows env s then n else scip_ctx_get_n_lp_rows env s)] s
          = Some (s\<lparr>row_registry := r\<rparr>)" by blast
  from a show ?thesis
    unfolding scip_ctx_get_lp_row_duals_batch_def Let_def
    by (auto simp: r split: if_splits)
qed

lemma duals_batch_kept:
  "scip_ctx_get_lp_row_duals_batch out_null n env s = Some (h, s') \<Longrightarrow> kept_by_calls s s'"
  using duals_batch_shape[of out_null n env s h s'] kept_by_calls_refl[of s] kept_row[of s]
  by auto

lemma farkas_batch_same:
  "scip_ctx_get_lp_row_farkas_batch = scip_ctx_get_lp_row_duals_batch"
  by (intro ext) (simp add: scip_ctx_get_lp_row_farkas_batch_def scip_ctx_get_lp_row_duals_batch_def)


lemma farkas_batch_kept:
  "scip_ctx_get_lp_row_farkas_batch out_null n env s = Some (h, s') \<Longrightarrow> kept_by_calls s s'"
  unfolding farkas_batch_same by (rule duals_batch_kept)

lemma exec_call_kept: "exec_call c s = Some s' \<Longrightarrow> kept_by_calls s s'"
proof (cases c)
  case (Call_set_result x)
  then show "exec_call c s = Some s' \<Longrightarrow> kept_by_calls s s'"
    by (auto simp: scip_pricer_set_result_def kept_by_calls_def)
next
  case (Call_set_lowerbound x)
  then show "exec_call c s = Some s' \<Longrightarrow> kept_by_calls s s'"
    by (auto simp: scip_pricer_set_lowerbound_def kept_by_calls_def)
next
  case (Call_set_stopearly x)
  then show "exec_call c s = Some s' \<Longrightarrow> kept_by_calls s s'"
    by (auto simp: scip_pricer_set_stopearly_def kept_by_calls_def)
next
  case Call_abort_round
  then show "exec_call c s = Some s' \<Longrightarrow> kept_by_calls s s'"
    by (auto simp: scip_pricer_abort_round_def kept_by_calls_def SCIPinterruptSolve_def Let_def)
next
  case (Call_add_priced_var name env)
  then show "exec_call c s = Some s' \<Longrightarrow> kept_by_calls s s'"
    by (auto dest: add_priced_var_kept)
next
  case (Call_add_var_to_rows_batch x1 x2 x3 x4 x5)
  then show "exec_call c s = Some s' \<Longrightarrow> kept_by_calls s s'"
    using rows_batch_kept by auto
next
  case (Call_add_var_to_conss_batch x1 x2 x3 x4 x5)
  then show "exec_call c s = Some s' \<Longrightarrow> kept_by_calls s s'"
    using conss_batch_kept by auto
next
  case (Call_enable_redcost_callback x)
  then show "exec_call c s = Some s' \<Longrightarrow> kept_by_calls s s'"
    by (auto simp: scip_pricer_enable_redcost_callback_def kept_by_calls_def)
next
  case (Call_enable_farkas_callback x)
  then show "exec_call c s = Some s' \<Longrightarrow> kept_by_calls s s'"
    by (auto simp: scip_pricer_enable_farkas_callback_def kept_by_calls_def)
next
  case (Call_enable_incumbent_callback x)
  then show "exec_call c s = Some s' \<Longrightarrow> kept_by_calls s s'"
    by (auto simp: scip_enable_incumbent_callback_def kept_by_calls_def)
next
  case (Call_enable_node_callback x)
  then show "exec_call c s = Some s' \<Longrightarrow> kept_by_calls s s'"
    by (auto simp: scip_enable_node_callback_def kept_by_calls_def)
next
  case (Call_add_var name env)
  then show "exec_call c s = Some s' \<Longrightarrow> kept_by_calls s s'"
    by (auto dest: add_var_kept)
next
  case (Call_add_cons_linear x1 x2 x3 x4 x5)
  then show "exec_call c s = Some s' \<Longrightarrow> kept_by_calls s s'"
    by (auto dest: add_cons_linear_kept)
next
  case (Call_var_find_id x1 x2 x3)
  then show "exec_call c s = Some s' \<Longrightarrow> kept_by_calls s s'"
    by (auto dest: var_find_id_kept)
next
  case (Call_cons_find_id x1 x2 x3)
  then show "exec_call c s = Some s' \<Longrightarrow> kept_by_calls s s'"
    by (auto dest: cons_find_id_kept)
next
  case (Call_var_get_transformed x1 x2)
  then show "exec_call c s = Some s' \<Longrightarrow> kept_by_calls s s'"
    by (auto dest: var_get_transformed_kept)
next
  case (Call_cons_get_transformed x1 x2)
  then show "exec_call c s = Some s' \<Longrightarrow> kept_by_calls s s'"
    by (auto dest: cons_get_transformed_kept)
next
  case (Call_cons_get_row x1 x2 x3)
  then show "exec_call c s = Some s' \<Longrightarrow> kept_by_calls s s'"
    by (auto dest: cons_get_row_kept)
next
  case (Call_lp_row_duals_batch x1 x2 x3)
  then show "exec_call c s = Some s' \<Longrightarrow> kept_by_calls s s'"
    by (auto dest: duals_batch_kept)
next
  case (Call_lp_row_farkas_batch x1 x2 x3)
  then show "exec_call c s = Some s' \<Longrightarrow> kept_by_calls s s'"
    by (auto dest: farkas_batch_kept)
qed


lemma exec_call_returns: "\<not> may_end_process c \<Longrightarrow> \<exists>s'. exec_call c s = Some s'"
proof (cases c)
  case (Call_add_priced_var name env)
  assume "\<not> may_end_process c"
  with Call_add_priced_var have ok: "set_initial_ret env = SCIP_OKAY" "set_removable_ret env = SCIP_OKAY"
    "release_ret env = SCIP_OKAY" by auto
  from registerVarHandle_returns[of "created_var env" "var_realloc_ok env" s] obtain h0 r where
    r: "registerVarHandle (created_var env) (var_realloc_ok env) s = Some (h0, s\<lparr>var_registry := r\<rparr>)"
    by blast
  show ?thesis unfolding Call_add_priced_var
    by (simp add: scip_pricer_add_priced_var_def ok r Let_def)
next
  case (Call_add_var name env)
  assume "\<not> may_end_process c"
  with Call_add_var have ok: "set_initial_ret env = SCIP_OKAY" "set_removable_ret env = SCIP_OKAY"
    "release_ret env = SCIP_OKAY" by auto
  from registerVarHandle_returns[of "created_var env" "var_realloc_ok env" s] obtain h0 r where
    r: "registerVarHandle (created_var env) (var_realloc_ok env) s = Some (h0, s\<lparr>var_registry := r\<rparr>)"
    by blast
  show ?thesis unfolding Call_add_var
    by (simp add: scip_add_var_def ok r)
next
  case (Call_add_cons_linear x1 x2 x3 x4 x5)
  from registerConsHandle_returns[of x3 x5 s] show ?thesis unfolding Call_add_cons_linear
    by (auto simp: scip_add_cons_linear_def)
next
  case (Call_var_find_id x1 x2 x3)
  from registerVarHandle_returns[of x2 x3 s] show ?thesis unfolding Call_var_find_id
    by (auto simp: scip_var_find_id_def)
next
  case (Call_cons_find_id x1 x2 x3)
  from registerConsHandle_returns[of x2 x3 s] show ?thesis unfolding Call_cons_find_id
    by (auto simp: scip_cons_find_id_def)
next
  case (Call_var_get_transformed x1 env)
  from registerVarHandle_returns[of "trans_obj env" "trans_realloc_ok env" s]
  show ?thesis unfolding Call_var_get_transformed
    by (auto simp: scip_var_get_transformed_def)
next
  case (Call_cons_get_transformed x1 env)
  from registerConsHandle_returns[of "trans_obj env" "trans_realloc_ok env" s]
  show ?thesis unfolding Call_cons_get_transformed
    by (auto simp: scip_cons_get_transformed_def)
next
  case (Call_cons_get_row x1 x2 x3)
  from registerRowHandle_returns[of x2 x3 s] show ?thesis unfolding Call_cons_get_row
    by (auto simp: scip_cons_get_row_def)
next
  case (Call_lp_row_duals_batch x1 n env)
  from register_lp_rows_returns[of "lp_rows env" "row_realloc_ok env"
      "[0..<nat (if n < scip_ctx_get_n_lp_rows env s then n else scip_ctx_get_n_lp_rows env s)]" s]
  show ?thesis unfolding Call_lp_row_duals_batch
    by (auto simp: scip_ctx_get_lp_row_duals_batch_def Let_def)
next
  case (Call_lp_row_farkas_batch x1 n env)
  from register_lp_rows_returns[of "lp_rows env" "row_realloc_ok env"
      "[0..<nat (if n < scip_ctx_get_n_lp_rows env s then n else scip_ctx_get_n_lp_rows env s)]" s]
  show ?thesis unfolding Call_lp_row_farkas_batch
    by (auto simp: scip_ctx_get_lp_row_farkas_batch_def Let_def)
qed simp_all

lemma run_calls_returns:
  "\<not> list_ex may_end_process calls \<Longrightarrow> \<exists>s'. run_calls calls s = Some s'"
proof (induction calls arbitrary: s)
  case Nil then show ?case by simp
next
  case (Cons c calls)
  then have "\<not> may_end_process c" "\<not> list_ex may_end_process calls" by simp_all
  from exec_call_returns[OF this(1), of s] obtain t where "exec_call c s = Some t" by blast
  with Cons.IH[OF \<open>\<not> list_ex may_end_process calls\<close>, of t] show ?case by simp
qed

lemma call_out_returns:
  "call_out c h s = None \<Longrightarrow> list_ex may_end_process (handler_calls h)"
proof (cases h)
  case None
  assume "call_out c h s = None"
  with None show ?thesis by (simp add: call_out_def)
next
  case (Some calls)
  assume "call_out c h s = None"
  with Some have "run_calls calls (s\<lparr>callouts := callouts s @ [c]\<rparr>) = None"
    by (simp add: call_out_def)
  with run_calls_returns[of calls "s\<lparr>callouts := callouts s @ [c]\<rparr>"] Some
  show ?thesis by (auto simp: handler_calls_def)
qed



lemma gated_call_out_returns:
  "(if flag \<noteq> (0::int) then call_out c h s else Some s) = None \<Longrightarrow>
     flag \<noteq> 0 \<and> list_ex may_end_process (handler_calls h)"
  using call_out_returns[of c h s] by (auto split: if_splits)

lemma redcost_exit_fields:
  "pricer_redcost_calls (snd (redcost_exit out s)) = pricer_redcost_calls s"
  "pricer_round (snd (redcost_exit out s)) = pricer_round s"
  "pricer_farkas_calls (snd (redcost_exit out s)) = pricer_farkas_calls s"
  "callouts (snd (redcost_exit out s)) = callouts s"
  "scip_instance (snd (redcost_exit out s)) = scip_instance s"
  by (simp_all add: redcost_exit_def Let_def SCIPinterruptSolve_def)

lemma farkas_exit_fields:
  "pricer_redcost_calls (snd (farkas_exit out s)) = pricer_redcost_calls s"
  "pricer_round (snd (farkas_exit out s)) = pricer_round s"
  "pricer_farkas_calls (snd (farkas_exit out s)) = pricer_farkas_calls s"
  "callouts (snd (farkas_exit out s)) = callouts s"
  "scip_instance (snd (farkas_exit out s)) = scip_instance s"
  by (simp_all add: farkas_exit_def Let_def SCIPinterruptSolve_def)

lemma redcost_enter_fields:
  "pricer_redcost_calls (redcost_enter s) = pricer_redcost_calls s + 1"
  "pricer_round (redcost_enter s) = pricer_round s + 1"
  "pricer_farkas_calls (redcost_enter s) = pricer_farkas_calls s"
  "callouts (redcost_enter s) = callouts s"
  "scip_instance (redcost_enter s) = scip_instance s"
  "js_pricer_redcost_callback (redcost_enter s) = js_pricer_redcost_callback s"
  "interrupt_requests (redcost_enter s) = interrupt_requests s"
  by (simp_all add: redcost_enter_def)

lemma farkas_enter_fields:
  "pricer_redcost_calls (farkas_enter s) = pricer_redcost_calls s"
  "pricer_round (farkas_enter s) = pricer_round s + 1"
  "pricer_farkas_calls (farkas_enter s) = pricer_farkas_calls s + 1"
  "callouts (farkas_enter s) = callouts s"
  "scip_instance (farkas_enter s) = scip_instance s"
  "js_pricer_farkas_callback (farkas_enter s) = js_pricer_farkas_callback s"
  "interrupt_requests (farkas_enter s) = interrupt_requests s"
  by (simp_all add: farkas_enter_def)

text \<open>The reduced-cost hook as its three parts, with the state between them.\<close>

lemma pricerRedcostJs_parts:
  "pricerRedcostJs h out s = Some (out', s') \<longleftrightarrow>
     (\<exists>s2. (if js_pricer_redcost_callback s \<noteq> 0 then call_out OnPricerRedcost h (redcost_enter s)
             else Some (redcost_enter s)) = Some s2 \<and>
           redcost_exit out s2 = (out', s'))"
  by (auto simp: pricerRedcostJs_def Let_def redcost_enter_fields split: bind_splits)

lemma pricerRedcostJs_None:
  "pricerRedcostJs h out s = None \<longleftrightarrow>
     (if js_pricer_redcost_callback s \<noteq> 0 then call_out OnPricerRedcost h (redcost_enter s)
      else Some (redcost_enter s)) = None"
  by (auto simp: pricerRedcostJs_def Let_def redcost_enter_fields split: bind_splits)

lemma pricerFarkasJs_parts:
  "pricerFarkasJs h True result s = Some (result', s') \<longleftrightarrow>
     (\<exists>s2. (if js_pricer_farkas_callback s \<noteq> 0 then call_out OnPricerFarkas h (farkas_enter s)
             else Some (farkas_enter s)) = Some s2 \<and>
           farkas_exit result s2 = (result', s'))"
  by (auto simp: pricerFarkasJs_def Let_def farkas_enter_fields split: bind_splits)

lemma pricerFarkasJs_None:
  "pricerFarkasJs h lp result s = None \<longleftrightarrow>
     lp \<and> (if js_pricer_farkas_callback s \<noteq> 0 then call_out OnPricerFarkas h (farkas_enter s)
      else Some (farkas_enter s)) = None"
  by (auto simp: pricerFarkasJs_def Let_def farkas_enter_fields split: bind_splits)

lemma pricerFarkasJs_no_lp:
  "pricerFarkasJs h False result s = Some (farkas_no_lp result (farkas_enter s))"
  by (simp add: pricerFarkasJs_def Let_def)

section \<open>Properties of the hooks\<close>



text \<open>
  C9. A hook whose enable flag is 0 returns without a callout: the list of callouts is
  what it was. For the two event hooks the whole state is what it was.
\<close>

theorem disabled_hook_no_callout:
  "(js_incumbent_callback s = 0 \<longrightarrow> eventExecBestSol h sol objval s = Some s) \<and>
   (js_node_callback s = 0 \<longrightarrow> eventExecNode h dualbound primalbound nnodes s = Some s) \<and>
   (js_pricer_redcost_callback s = 0 \<longrightarrow>
      (\<exists>out' s'. pricerRedcostJs h out s = Some (out', s') \<and> callouts s' = callouts s)) \<and>
   (js_pricer_farkas_callback s = 0 \<longrightarrow>
      (\<exists>result' s'. pricerFarkasJs h lp result s = Some (result', s') \<and> callouts s' = callouts s))"
proof (intro conjI impI)
  assume "js_incumbent_callback s = 0"
  then show "eventExecBestSol h sol objval s = Some s" by (simp add: eventExecBestSol_def)
next
  assume "js_node_callback s = 0"
  then show "eventExecNode h dualbound primalbound nnodes s = Some s"
    by (simp add: eventExecNode_def)
next
  assume f: "js_pricer_redcost_callback s = 0"
  have "pricerRedcostJs h out s = Some (redcost_exit out (redcost_enter s))"
    using f by (simp add: pricerRedcostJs_def Let_def redcost_enter_fields)
  moreover have "callouts (snd (redcost_exit out (redcost_enter s))) = callouts s"
    by (simp add: redcost_exit_fields redcost_enter_fields)
  ultimately show "\<exists>out' s'. pricerRedcostJs h out s = Some (out', s') \<and> callouts s' = callouts s"
    by (metis prod.collapse)
next
  assume f: "js_pricer_farkas_callback s = 0"
  show "\<exists>result' s'. pricerFarkasJs h lp result s = Some (result', s') \<and> callouts s' = callouts s"
  proof (cases lp)
    case True
    have "pricerFarkasJs h lp result s = Some (farkas_exit result (farkas_enter s))"
      using f True by (simp add: pricerFarkasJs_def Let_def farkas_enter_fields)
    moreover have "callouts (snd (farkas_exit result (farkas_enter s))) = callouts s"
      by (simp add: farkas_exit_fields farkas_enter_fields)
    ultimately show ?thesis by (metis prod.collapse)
  next
    case False
    have "pricerFarkasJs h lp result s = Some (farkas_no_lp result (farkas_enter s))"
      using False by (simp add: pricerFarkasJs_def Let_def)
    moreover have "callouts (snd (farkas_no_lp result (farkas_enter s))) = callouts s"
      by (simp add: farkas_no_lp_def Let_def farkas_enter_fields)
    ultimately show ?thesis by (metis prod.collapse)
  qed
qed

theorem disabled_hook_no_callout_witness:
  "js_incumbent_callback bridge_init = 0 \<and>
   eventExecBestSol (Some [Call_abort_round]) 1 5 bridge_init = Some bridge_init \<and>
   js_node_callback bridge_init = 0 \<and>
   eventExecNode (Some [Call_abort_round]) 1 2 3 bridge_init = Some bridge_init \<and>
   js_pricer_redcost_callback bridge_init = 0 \<and>
   map_option (callouts \<circ> snd)
     (pricerRedcostJs (Some [Call_abort_round])
        \<lparr>lowerbound_slot = Some 0, stopearly_slot = Some False, result_slot = Some 0\<rparr>
        bridge_init) = Some [] \<and>
   js_pricer_farkas_callback bridge_init = 0 \<and>
   map_option (callouts \<circ> snd)
     (pricerFarkasJs (Some [Call_abort_round]) True (Some 0) bridge_init) = Some []"
proof -
  have f: "js_incumbent_callback bridge_init = 0" "js_node_callback bridge_init = 0"
    "js_pricer_redcost_callback bridge_init = 0" "js_pricer_farkas_callback bridge_init = 0"
    "callouts bridge_init = []"
    by (simp_all add: bridge_init_def)
  from disabled_hook_no_callout[where s = bridge_init and h = "Some [Call_abort_round]"
      and sol = 1 and objval = 5 and dualbound = 1 and primalbound = 2 and nnodes = 3
      and out = "\<lparr>lowerbound_slot = Some 0, stopearly_slot = Some False, result_slot = Some 0\<rparr>"
      and lp = True and result = "Some 0"] f
  show ?thesis by auto
qed








text \<open>
  C3, as the code has it. A Farkas invocation with no LP at the current node returns, and
  reports \<open>SCIP_DIDNOTRUN\<close>; no external handler is invoked, no column is added and no
  registry changes; the count of variables added in this call is 0 afterwards, whatever
  it was before, because the hook has set it to 0 before it asks for the LP.
\<close>

theorem farkas_without_lp:
  "\<exists>s'. pricerFarkasJs h False result s = Some (store SCIP_DIDNOTRUN result, s') \<and>
         pending_pricer_result s' = SCIP_DIDNOTRUN \<and>
         last_pricing_result s' = SCIP_DIDNOTRUN \<and>
         current_pricing_mode s' = 0 \<and>
         added_vars_this_call s' = 0 \<and>
         priced_vars_added s' = priced_vars_added s \<and>
         var_registry s' = var_registry s \<and>
         interrupt_requests s' = interrupt_requests s \<and>
         callouts s' = callouts s"
  by (simp add: pricerFarkasJs_def farkas_no_lp_def farkas_enter_def Let_def)

theorem farkas_without_lp_witness:
  "map_option fst
     (pricerFarkasJs (Some [Call_abort_round]) False (Some 0)
        (bridge_init\<lparr>js_pricer_farkas_callback := 1, added_vars_this_call := 0\<rparr>))
     = Some (Some SCIP_DIDNOTRUN) \<and>
   map_option (added_vars_this_call \<circ> snd)
     (pricerFarkasJs (Some [Call_abort_round]) False (Some 0)
        (bridge_init\<lparr>js_pricer_farkas_callback := 1, added_vars_this_call := 0\<rparr>))
     = Some 0 \<and>
   map_option (callouts \<circ> snd)
     (pricerFarkasJs (Some [Call_abort_round]) False (Some 0)
        (bridge_init\<lparr>js_pricer_farkas_callback := 1, added_vars_this_call := 0\<rparr>))
     = Some []"
  using farkas_without_lp[where h = "Some [Call_abort_round]" and result = "Some 0"
      and s = "bridge_init\<lparr>js_pricer_farkas_callback := 1, added_vars_this_call := 0\<rparr>"]
  by (auto simp: store_def bridge_init_def)

text \<open>
  A reduced-cost round that adds one column leaves the count at 1; the Farkas invocation
  without an LP that follows leaves it at 0.
\<close>

theorem farkas_without_lp_counterexample:
  "map_option (added_vars_this_call \<circ> snd)
     (pricerRedcostJs
        (Some [Call_add_priced_var (Some ''x'')
           \<lparr>create_ret = SCIP_OKAY, created_var = 7, set_initial_ret = SCIP_OKAY,
            set_removable_ret = SCIP_OKAY, add_ret = SCIP_OKAY, release_ret = SCIP_OKAY,
            var_realloc_ok = True\<rparr>])
        \<lparr>lowerbound_slot = Some 0, stopearly_slot = Some False, result_slot = Some 0\<rparr>
        (bridge_init\<lparr>scip_instance := 1, js_pricer_redcost_callback := 1\<rparr>)) = Some 1 \<and>
   map_option (added_vars_this_call \<circ> snd)
     (Option.bind
        (pricerRedcostJs
           (Some [Call_add_priced_var (Some ''x'')
              \<lparr>create_ret = SCIP_OKAY, created_var = 7, set_initial_ret = SCIP_OKAY,
               set_removable_ret = SCIP_OKAY, add_ret = SCIP_OKAY, release_ret = SCIP_OKAY,
               var_realloc_ok = True\<rparr>])
           \<lparr>lowerbound_slot = Some 0, stopearly_slot = Some False, result_slot = Some 0\<rparr>
           (bridge_init\<lparr>scip_instance := 1, js_pricer_redcost_callback := 1\<rparr>))
        (pricerFarkasJs None False (Some 0) \<circ> snd)) = Some 0"
  by (simp add: pricerRedcostJs_def redcost_enter_def call_out_def bridge_init_def
      scip_pricer_add_priced_var_def registerVarHandle_def registerHandle_def
      ensureRegistryCapacity_def clearRegistry_def registry_size_def growCapacity_64_1
      redcost_exit_def Let_def pricerFarkasJs_def farkas_enter_def farkas_no_lp_def)




lemma rows_batch_shape:
  "snd (scip_pricer_add_var_to_rows_batch varId rowIds vals nnz rets s) = s \<or>
   snd (scip_pricer_add_var_to_rows_batch varId rowIds vals nnz rets s) = mark_abort s \<or>
   snd (scip_pricer_add_var_to_rows_batch varId rowIds vals nnz rets s) =
     SCIPinterruptSolve ((mark_abort s)\<lparr>pending_pricer_stopearly := True\<rparr>)"
  by (simp add: scip_pricer_add_var_to_rows_batch_def split: option.splits)

lemma conss_batch_shape:
  "snd (scip_pricer_add_var_to_conss_batch varId consIds vals nnz rets s) = s \<or>
   snd (scip_pricer_add_var_to_conss_batch varId consIds vals nnz rets s) = mark_abort s \<or>
   snd (scip_pricer_add_var_to_conss_batch varId consIds vals nnz rets s) =
     SCIPinterruptSolve ((mark_abort s)\<lparr>pending_pricer_stopearly := True\<rparr>)"
  by (simp add: scip_pricer_add_var_to_conss_batch_def split: option.splits)











section \<open>Solving and resetting\<close>

lemma run_event_returns:
  "run_event e s = None \<Longrightarrow> list_ex may_end_process (event_calls e)"
proof (cases e)
  case (Ev_best_sol h sol objval)
  assume "run_event e s = None"
  with Ev_best_sol have "call_out (OnIncumbent objval) h s = None"
    by (auto simp: eventExecBestSol_def split: if_splits)
  from call_out_returns[OF this] Ev_best_sol show ?thesis by simp
next
  case (Ev_redcost h out)
  assume "run_event e s = None"
  with Ev_redcost have "pricerRedcostJs h out s = None" by simp
  then have "(if js_pricer_redcost_callback s \<noteq> 0 then call_out OnPricerRedcost h (redcost_enter s)
         else Some (redcost_enter s)) = None"
    by (simp add: pricerRedcostJs_None)
  from gated_call_out_returns[OF this] Ev_redcost show ?thesis by simp
next
  case (Ev_farkas h lp result)
  assume "run_event e s = None"
  with Ev_farkas have "pricerFarkasJs h lp result s = None" by simp
  then have "(if js_pricer_farkas_callback s \<noteq> 0 then call_out OnPricerFarkas h (farkas_enter s)
         else Some (farkas_enter s)) = None"
    by (simp add: pricerFarkasJs_None)
  from gated_call_out_returns[OF this] Ev_farkas show ?thesis by simp
qed

lemma run_events_returns:
  "run_events events s = None \<Longrightarrow> list_ex may_end_process (concat (map event_calls events))"
proof (induction events arbitrary: s)
  case Nil then show ?case by simp
next
  case (Cons e events)
  show ?case
  proof (cases "run_event e s")
    case None
    from run_event_returns[OF this] show ?thesis by (auto simp: list_ex_iff)
  next
    case (Some t)
    with Cons.prems have "run_events events t = None" by simp
    from Cons.IH[OF this] show ?thesis by (auto simp: list_ex_iff)
  qed
qed

text \<open>
  C10. \<open>scip_solve\<close> either does not return, which takes a hook whose handler makes a
  call that ends the process, or returns -1 exactly when there is no solver instance or
  \<open>SCIPsolve\<close> fails, and otherwise the code of the status: 0 for optimal, 1 for
  infeasible, 2 for unbounded, 3 for the time limit and 4 for every other status. So -1,
  which is none of 0 to 4, is a possible return value.
\<close>

theorem scip_solve_status:
  "case scip_solve events retcode status s of
     None \<Rightarrow> scip_instance s \<noteq> NULL \<and> list_ex may_end_process (concat (map event_calls events))
   | Some (r, s') \<Rightarrow>
       (r = - 1 \<longleftrightarrow> scip_instance s = NULL \<or> retcode \<noteq> SCIP_OKAY) \<and>
       (r \<noteq> - 1 \<longrightarrow>
          r \<in> {0, 1, 2, 3, 4} \<and>
          (r = 0 \<longleftrightarrow> status = SCIP_STATUS_OPTIMAL) \<and>
          (r = 1 \<longleftrightarrow> status = SCIP_STATUS_INFEASIBLE) \<and>
          (r = 2 \<longleftrightarrow> status = SCIP_STATUS_UNBOUNDED) \<and>
          (r = 3 \<longleftrightarrow> status = SCIP_STATUS_TIMELIMIT))"
proof (cases "scip_instance s = NULL")
  case True
  then show ?thesis by (simp add: scip_solve_def)
next
  case False
  show ?thesis
  proof (cases "run_events events (s\<lparr>current_pricing_mode := 0, added_vars_this_call := 0\<rparr>)")
    case None
    from run_events_returns[OF this] None False show ?thesis by (simp add: scip_solve_def)
  next
    case (Some s1)
    with False show ?thesis
      by (cases status) (simp_all add: scip_solve_def)
  qed
qed

theorem scip_solve_status_witness:
  "map_option fst (scip_solve [] SCIP_OKAY SCIP_STATUS_OPTIMAL bridge_init) = Some (- 1) \<and>
   map_option fst (scip_solve [] 0 SCIP_STATUS_OPTIMAL (bridge_init\<lparr>scip_instance := 1\<rparr>))
     = Some (- 1) \<and>
   map_option fst (scip_solve [Ev_farkas None False (Some 0)] SCIP_OKAY SCIP_STATUS_TIMELIMIT
     (bridge_init\<lparr>scip_instance := 1\<rparr>)) = Some 3 \<and>
   map_option fst (scip_solve [] SCIP_OKAY SCIP_STATUS_GAPLIMIT
     (bridge_init\<lparr>scip_instance := 1\<rparr>)) = Some 4"
proof -
  have n: "scip_solve [] SCIP_OKAY SCIP_STATUS_OPTIMAL bridge_init \<noteq> None"
    "scip_solve [] 0 SCIP_STATUS_OPTIMAL (bridge_init\<lparr>scip_instance := 1\<rparr>) \<noteq> None"
    "scip_solve [Ev_farkas None False (Some 0)] SCIP_OKAY SCIP_STATUS_TIMELIMIT
       (bridge_init\<lparr>scip_instance := 1\<rparr>) \<noteq> None"
    "scip_solve [] SCIP_OKAY SCIP_STATUS_GAPLIMIT (bridge_init\<lparr>scip_instance := 1\<rparr>) \<noteq> None"
    by (simp_all add: scip_solve_def pricerFarkasJs_def)
  have i: "scip_instance bridge_init = NULL" "scip_instance (bridge_init\<lparr>scip_instance := 1\<rparr>) \<noteq> NULL"
    "(0::int) \<noteq> SCIP_OKAY"
    by (simp_all add: bridge_init_def SCIP_OKAY_def)
  from scip_solve_status[where events = "[]" and retcode = SCIP_OKAY and status = SCIP_STATUS_OPTIMAL
      and s = bridge_init] n(1) i
  have 1: "map_option fst (scip_solve [] SCIP_OKAY SCIP_STATUS_OPTIMAL bridge_init) = Some (- 1)"
    by auto
  from scip_solve_status[where events = "[]" and retcode = 0 and status = SCIP_STATUS_OPTIMAL
      and s = "bridge_init\<lparr>scip_instance := 1\<rparr>"] n(2) i
  have 2: "map_option fst (scip_solve [] 0 SCIP_STATUS_OPTIMAL (bridge_init\<lparr>scip_instance := 1\<rparr>))
     = Some (- 1)"
    by auto
  from scip_solve_status[where events = "[Ev_farkas None False (Some 0)]" and retcode = SCIP_OKAY
      and status = SCIP_STATUS_TIMELIMIT and s = "bridge_init\<lparr>scip_instance := 1\<rparr>"] n(3) i
  have 3: "map_option fst (scip_solve [Ev_farkas None False (Some 0)] SCIP_OKAY SCIP_STATUS_TIMELIMIT
     (bridge_init\<lparr>scip_instance := 1\<rparr>)) = Some 3"
    by auto
  from scip_solve_status[where events = "[]" and retcode = SCIP_OKAY
      and status = SCIP_STATUS_GAPLIMIT and s = "bridge_init\<lparr>scip_instance := 1\<rparr>"] n(4) i
  have 4: "map_option fst (scip_solve [] SCIP_OKAY SCIP_STATUS_GAPLIMIT
     (bridge_init\<lparr>scip_instance := 1\<rparr>)) = Some 4"
    by auto
  from 1 2 3 4 show ?thesis by simp
qed

lemma exec_call_no_instance:
  "scip_instance s = NULL \<Longrightarrow> exec_call c s = Some s' \<Longrightarrow>
     var_registry s' = var_registry s \<and> cons_registry s' = cons_registry s \<and>
     row_registry s' = row_registry s"
proof (cases c)
  case (Call_set_result x)
  then show "exec_call c s = Some s' \<Longrightarrow> ?thesis"
    by (auto simp: scip_pricer_set_result_def)
next
  case (Call_set_lowerbound x)
  then show "exec_call c s = Some s' \<Longrightarrow> ?thesis"
    by (auto simp: scip_pricer_set_lowerbound_def)
next
  case (Call_set_stopearly x)
  then show "exec_call c s = Some s' \<Longrightarrow> ?thesis"
    by (auto simp: scip_pricer_set_stopearly_def)
next
  case Call_abort_round
  then show "exec_call c s = Some s' \<Longrightarrow> ?thesis"
    by (auto simp: scip_pricer_abort_round_def SCIPinterruptSolve_def Let_def)
next
  case (Call_add_priced_var name env)
  then show "scip_instance s = NULL \<Longrightarrow> exec_call c s = Some s' \<Longrightarrow> ?thesis"
    by (auto simp: scip_pricer_add_priced_var_def mark_abort_def)
next
  case (Call_add_var_to_rows_batch x1 x2 x3 x4 x5)
  then show "exec_call c s = Some s' \<Longrightarrow> ?thesis"
    using rows_batch_shape[of x1 x2 x3 x4 x5 s]
    by (auto simp: mark_abort_def SCIPinterruptSolve_def)
next
  case (Call_add_var_to_conss_batch x1 x2 x3 x4 x5)
  then show "exec_call c s = Some s' \<Longrightarrow> ?thesis"
    using conss_batch_shape[of x1 x2 x3 x4 x5 s]
    by (auto simp: mark_abort_def SCIPinterruptSolve_def)
next
  case (Call_enable_redcost_callback x)
  then show "exec_call c s = Some s' \<Longrightarrow> ?thesis"
    by (auto simp: scip_pricer_enable_redcost_callback_def)
next
  case (Call_enable_farkas_callback x)
  then show "exec_call c s = Some s' \<Longrightarrow> ?thesis"
    by (auto simp: scip_pricer_enable_farkas_callback_def)
next
  case (Call_enable_incumbent_callback x)
  then show "exec_call c s = Some s' \<Longrightarrow> ?thesis"
    by (auto simp: scip_enable_incumbent_callback_def)
next
  case (Call_enable_node_callback x)
  then show "exec_call c s = Some s' \<Longrightarrow> ?thesis"
    by (auto simp: scip_enable_node_callback_def)
next
  case (Call_add_var name env)
  then show "scip_instance s = NULL \<Longrightarrow> exec_call c s = Some s' \<Longrightarrow> ?thesis"
    by (auto simp: scip_add_var_def)
next
  case (Call_add_cons_linear x1 x2 x3 x4 x5)
  then show "scip_instance s = NULL \<Longrightarrow> exec_call c s = Some s' \<Longrightarrow> ?thesis"
    by (auto simp: scip_add_cons_linear_def)
next
  case (Call_var_find_id x1 x2 x3)
  then show "scip_instance s = NULL \<Longrightarrow> exec_call c s = Some s' \<Longrightarrow> ?thesis"
    by (auto simp: scip_var_find_id_def)
next
  case (Call_cons_find_id x1 x2 x3)
  then show "scip_instance s = NULL \<Longrightarrow> exec_call c s = Some s' \<Longrightarrow> ?thesis"
    by (auto simp: scip_cons_find_id_def)
next
  case (Call_var_get_transformed x1 x2)
  then show "scip_instance s = NULL \<Longrightarrow> exec_call c s = Some s' \<Longrightarrow> ?thesis"
    by (auto simp: scip_var_get_transformed_def)
next
  case (Call_cons_get_transformed x1 x2)
  then show "scip_instance s = NULL \<Longrightarrow> exec_call c s = Some s' \<Longrightarrow> ?thesis"
    by (auto simp: scip_cons_get_transformed_def)
next
  case (Call_cons_get_row x1 x2 x3)
  then show "scip_instance s = NULL \<Longrightarrow> exec_call c s = Some s' \<Longrightarrow> ?thesis"
    by (auto simp: scip_cons_get_row_def)
next
  case (Call_lp_row_duals_batch x1 x2 x3)
  then show "scip_instance s = NULL \<Longrightarrow> exec_call c s = Some s' \<Longrightarrow> ?thesis"
    by (auto simp: scip_ctx_get_lp_row_duals_batch_def)
next
  case (Call_lp_row_farkas_batch x1 x2 x3)
  then show "scip_instance s = NULL \<Longrightarrow> exec_call c s = Some s' \<Longrightarrow> ?thesis"
    by (auto simp: scip_ctx_get_lp_row_farkas_batch_def)
qed

lemma exec_call_inv:
  assumes "registries_follow_instance s" and "exec_call c s = Some s'"
  shows "registries_follow_instance s'"
proof (cases "scip_instance s = NULL")
  case True
  from exec_call_no_instance[OF True assms(2)] assms(1) True show ?thesis
    by (simp add: registries_follow_instance_def)
next
  case False
  with exec_call_kept[OF assms(2)] show ?thesis
    by (simp add: registries_follow_instance_def kept_by_calls_def)
qed

lemma run_calls_inv:
  "registries_follow_instance s \<Longrightarrow> run_calls calls s = Some s' \<Longrightarrow> registries_follow_instance s'"
proof (induction calls arbitrary: s)
  case Nil then show ?case by simp
next
  case (Cons c calls)
  from Cons.prems(2) obtain t where t: "exec_call c s = Some t" "run_calls calls t = Some s'"
    by (auto split: option.splits)
  from Cons.IH[OF exec_call_inv[OF Cons.prems(1) t(1)] t(2)] show ?case .
qed

lemma inv_same:
  "registries_follow_instance s \<Longrightarrow> scip_instance s' = scip_instance s \<Longrightarrow>
   var_registry s' = var_registry s \<Longrightarrow> cons_registry s' = cons_registry s \<Longrightarrow>
   row_registry s' = row_registry s \<Longrightarrow> registries_follow_instance s'"
  by (simp add: registries_follow_instance_def)

lemma call_out_inv:
  assumes "registries_follow_instance s" and "call_out c h s = Some s'"
  shows "registries_follow_instance s'"
proof (cases h)
  case None with assms show ?thesis by (simp add: call_out_def)
next
  case (Some calls)
  with assms(2) have r: "run_calls calls (s\<lparr>callouts := callouts s @ [c]\<rparr>) = Some s'"
    by (simp add: call_out_def)
  have "registries_follow_instance (s\<lparr>callouts := callouts s @ [c]\<rparr>)"
    using assms(1) by (simp add: registries_follow_instance_def)
  from run_calls_inv[OF this r] show ?thesis .
qed

lemma gated_call_out_inv:
  assumes "registries_follow_instance s"
    and "(if flag \<noteq> (0::int) then call_out c h s else Some s) = Some s'"
  shows "registries_follow_instance s'"
  using assms call_out_inv[of s c h s'] by (auto split: if_splits)

lemma redcost_enter_inv:
  "registries_follow_instance s \<Longrightarrow> registries_follow_instance (redcost_enter s)"
  by (simp add: registries_follow_instance_def redcost_enter_def)

lemma farkas_enter_inv:
  "registries_follow_instance s \<Longrightarrow> registries_follow_instance (farkas_enter s)"
  by (simp add: registries_follow_instance_def farkas_enter_def)

lemma redcost_exit_inv:
  "registries_follow_instance s \<Longrightarrow> registries_follow_instance (snd (redcost_exit out s))"
  by (simp add: registries_follow_instance_def redcost_exit_def Let_def SCIPinterruptSolve_def)

lemma farkas_exit_inv:
  "registries_follow_instance s \<Longrightarrow> registries_follow_instance (snd (farkas_exit result s))"
  by (simp add: registries_follow_instance_def farkas_exit_def Let_def SCIPinterruptSolve_def)

lemma farkas_no_lp_inv:
  "registries_follow_instance s \<Longrightarrow> registries_follow_instance (snd (farkas_no_lp result s))"
  by (simp add: registries_follow_instance_def farkas_no_lp_def Let_def)

lemma run_event_inv:
  assumes "registries_follow_instance s" and "run_event e s = Some s'"
  shows "registries_follow_instance s'"
proof (cases e)
  case (Ev_best_sol h sol objval)
  with assms(2) have "s' = s \<or> call_out (OnIncumbent objval) h s = Some s'"
    by (auto simp: eventExecBestSol_def split: if_splits)
  with assms(1) call_out_inv[of s "OnIncumbent objval" h s'] show ?thesis by auto
next
  case (Ev_redcost h out)
  with assms(2) obtain out' where "pricerRedcostJs h out s = Some (out', s')" by auto
  then obtain s2 where
    m: "(if js_pricer_redcost_callback s \<noteq> 0 then call_out OnPricerRedcost h (redcost_enter s)
         else Some (redcost_enter s)) = Some s2" and
    e: "redcost_exit out s2 = (out', s')"
    by (auto simp: pricerRedcostJs_parts)
  from gated_call_out_inv[OF redcost_enter_inv[OF assms(1)] m] have "registries_follow_instance s2" .
  from redcost_exit_inv[OF this, of out] e show ?thesis by simp
next
  case (Ev_farkas h lp result)
  with assms(2) obtain result' where r: "pricerFarkasJs h lp result s = Some (result', s')" by auto
  show ?thesis
  proof (cases lp)
    case True
    with r obtain s2 where
      m: "(if js_pricer_farkas_callback s \<noteq> 0 then call_out OnPricerFarkas h (farkas_enter s)
           else Some (farkas_enter s)) = Some s2" and
      e: "farkas_exit result s2 = (result', s')"
      by (auto simp: pricerFarkasJs_parts)
    from gated_call_out_inv[OF farkas_enter_inv[OF assms(1)] m] have "registries_follow_instance s2" .
    from farkas_exit_inv[OF this, of result] e show ?thesis by simp
  next
    case False
    with r have "s' = snd (farkas_no_lp result (farkas_enter s))"
      by (simp add: pricerFarkasJs_no_lp)
    with farkas_no_lp_inv[OF farkas_enter_inv[OF assms(1)], of result] show ?thesis by simp
  qed
qed

lemma run_events_inv:
  "registries_follow_instance s \<Longrightarrow> run_events events s = Some s' \<Longrightarrow> registries_follow_instance s'"
proof (induction events arbitrary: s)
  case Nil then show ?case by simp
next
  case (Cons e events)
  from Cons.prems(2) obtain t where t: "run_event e s = Some t" "run_events events t = Some s'"
    by (auto split: option.splits)
  from Cons.IH[OF run_event_inv[OF Cons.prems(1) t(1)] t(2)] show ?case .
qed

lemma reset_chain_registries:
  "var_registry (forget_pricer (clearRegistries (resetPricingState (clearCurrentProblem s)))) = clearRegistry"
  "cons_registry (forget_pricer (clearRegistries (resetPricingState (clearCurrentProblem s)))) = clearRegistry"
  "row_registry (forget_pricer (clearRegistries (resetPricingState (clearCurrentProblem s)))) = clearRegistry"
  "scip_instance (forget_pricer (clearRegistries (resetPricingState (clearCurrentProblem s)))) = scip_instance s"
  by (simp_all add: forget_pricer_def clearRegistries_def resetPricingState_def clearCurrentProblem_def)

lemma api_step_inv:
  assumes "registries_follow_instance s" and "api_step c s = Some s'"
  shows "registries_follow_instance s'"
proof (cases c)
  case (Api_create x1 x2 x3 x4 x5)
  with assms show ?thesis
    by (auto simp: scip_create_def registries_follow_instance_def Let_def split: if_splits)
next
  case Api_free
  with assms(2) show ?thesis
    by (auto simp: scip_free_def registries_follow_instance_def Let_def forget_pricer_def
        clearRegistries_def resetPricingState_def clearCurrentProblem_def clearRegistry_def)
next
  case Api_problem_clear
  with assms show ?thesis
    by (auto simp: scip_problem_clear_def registries_follow_instance_def reset_chain_registries
        clearRegistry_def split: if_splits)
next
  case (Api_problem_begin x1 x2 x3 x4)
  with assms show ?thesis
    by (auto simp: scip_problem_begin_def registries_follow_instance_def reset_chain_registries
        clearRegistry_def Let_def split: if_splits)
next
  case Api_reset
  with assms show ?thesis
    by (auto simp: scip_reset_def registries_follow_instance_def reset_chain_registries
        clearRegistry_def)
next
  case (Api_pricer_include x1 x2 x3 x4)
  with assms show ?thesis
    by (auto simp: scip_pricer_include_def registries_follow_instance_def split: if_splits)
next
  case (Api_solve events retcode status)
  show ?thesis
  proof (cases "scip_instance s = NULL")
    case True
    with Api_solve assms show ?thesis by (simp add: scip_solve_def)
  next
    case False
    with Api_solve assms(2) have
      "run_events events (s\<lparr>current_pricing_mode := 0, added_vars_this_call := 0\<rparr>) = Some s'"
      by (auto simp: scip_solve_def split: bind_splits if_splits)
    moreover have "registries_follow_instance (s\<lparr>current_pricing_mode := 0, added_vars_this_call := 0\<rparr>)"
      using assms(1) by (simp add: registries_follow_instance_def)
    ultimately show ?thesis by (rule run_events_inv[rotated])
  qed
next
  case (Api_call x)
  with assms exec_call_inv[of s x s'] show ?thesis by simp
qed

lemma run_api_inv:
  "registries_follow_instance s \<Longrightarrow> run_api calls s = Some s' \<Longrightarrow> registries_follow_instance s'"
proof (induction calls arbitrary: s)
  case Nil then show ?case by simp
next
  case (Cons c calls)
  from Cons.prems(2) obtain t where t: "api_step c s = Some t" "run_api calls t = Some s'"
    by (auto split: option.splits)
  from Cons.IH[OF api_step_inv[OF Cons.prems(1) t(1)] t(2)] show ?case .
qed

lemma reachable_inv:
  "run_api calls bridge_init = Some s \<Longrightarrow> registries_follow_instance s"
  by (rule run_api_inv[of bridge_init])
     (simp_all add: registries_follow_instance_def bridge_init_def clearRegistry_def)

lemma getByHandle_empty: "reg_items r = [] \<Longrightarrow> getByHandle h r = NULL"
  by (simp add: getByHandle_def registry_size_def)

lemma getByHandle_clear: "getByHandle h clearRegistry = NULL"
  by (simp add: getByHandle_empty clearRegistry_def)

text \<open>
  C5. In every state the program can reach, after \<open>scip_reset\<close>, after
  \<open>scip_problem_clear\<close> and after \<open>scip_problem_begin\<close> every handle resolves to the null
  pointer in each of the three registries. The last two return early when there is no
  solver instance; the registries are empty then.
\<close>

theorem reset_invalidates_handles:
  "run_api calls bridge_init = Some s \<Longrightarrow>
     getVarByHandle h (scip_reset s) = NULL \<and>
     getConsByHandle h (scip_reset s) = NULL \<and>
     getRowByHandle h (scip_reset s) = NULL \<and>
     getVarByHandle h (snd (scip_problem_clear s)) = NULL \<and>
     getConsByHandle h (snd (scip_problem_clear s)) = NULL \<and>
     getRowByHandle h (snd (scip_problem_clear s)) = NULL \<and>
     getVarByHandle h (snd (scip_problem_begin name maximize create_prob_ret set_sense_ret s)) = NULL \<and>
     getConsByHandle h (snd (scip_problem_begin name maximize create_prob_ret set_sense_ret s)) = NULL \<and>
     getRowByHandle h (snd (scip_problem_begin name maximize create_prob_ret set_sense_ret s)) = NULL"
proof -
  assume "run_api calls bridge_init = Some s"
  from reachable_inv[OF this] have inv: "registries_follow_instance s" .
  have r: "getVarByHandle h (scip_reset s) = NULL \<and>
     getConsByHandle h (scip_reset s) = NULL \<and>
     getRowByHandle h (scip_reset s) = NULL"
    by (simp add: scip_reset_def getVarByHandle_def getConsByHandle_def getRowByHandle_def
        reset_chain_registries getByHandle_clear)
  have c: "getVarByHandle h (snd (scip_problem_clear s)) = NULL \<and>
     getConsByHandle h (snd (scip_problem_clear s)) = NULL \<and>
     getRowByHandle h (snd (scip_problem_clear s)) = NULL"
  proof (cases "scip_instance s = NULL")
    case True
    with inv show ?thesis
      by (simp add: scip_problem_clear_def getVarByHandle_def getConsByHandle_def
          getRowByHandle_def registries_follow_instance_def getByHandle_empty)
  next
    case False
    then show ?thesis
      by (simp add: scip_problem_clear_def getVarByHandle_def getConsByHandle_def
          getRowByHandle_def reset_chain_registries getByHandle_clear)
  qed
  have b: "getVarByHandle h (snd (scip_problem_begin name maximize create_prob_ret set_sense_ret s)) = NULL \<and>
     getConsByHandle h (snd (scip_problem_begin name maximize create_prob_ret set_sense_ret s)) = NULL \<and>
     getRowByHandle h (snd (scip_problem_begin name maximize create_prob_ret set_sense_ret s)) = NULL"
  proof (cases "scip_instance s = NULL")
    case True
    with inv show ?thesis
      by (simp add: scip_problem_begin_def getVarByHandle_def getConsByHandle_def
          getRowByHandle_def registries_follow_instance_def getByHandle_empty)
  next
    case False
    then show ?thesis
      by (simp add: scip_problem_begin_def getVarByHandle_def getConsByHandle_def
          getRowByHandle_def reset_chain_registries getByHandle_clear Let_def)
  qed
  from r c b show ?thesis by simp
qed

theorem reset_invalidates_handles_witness:
  "map_option (getVarByHandle 1)
     (run_api
        [Api_create SCIP_OKAY 9 SCIP_OKAY SCIP_OKAY SCIP_OKAY,
         Api_problem_begin (Some ''p'') 0 SCIP_OKAY SCIP_OKAY,
         Api_call (Call_add_var (Some ''x'')
           \<lparr>create_ret = SCIP_OKAY, created_var = 7, set_initial_ret = SCIP_OKAY,
            set_removable_ret = SCIP_OKAY, add_ret = SCIP_OKAY, release_ret = SCIP_OKAY,
            var_realloc_ok = True\<rparr>)]
        bridge_init) = Some 7 \<and>
   map_option (getVarByHandle 1 \<circ> scip_reset)
     (run_api
        [Api_create SCIP_OKAY 9 SCIP_OKAY SCIP_OKAY SCIP_OKAY,
         Api_problem_begin (Some ''p'') 0 SCIP_OKAY SCIP_OKAY,
         Api_call (Call_add_var (Some ''x'')
           \<lparr>create_ret = SCIP_OKAY, created_var = 7, set_initial_ret = SCIP_OKAY,
            set_removable_ret = SCIP_OKAY, add_ret = SCIP_OKAY, release_ret = SCIP_OKAY,
            var_realloc_ok = True\<rparr>)]
        bridge_init) = Some NULL \<and>
   map_option (getVarByHandle 1 \<circ> snd \<circ> scip_problem_clear)
     (run_api
        [Api_create SCIP_OKAY 9 SCIP_OKAY SCIP_OKAY SCIP_OKAY,
         Api_problem_begin (Some ''p'') 0 SCIP_OKAY SCIP_OKAY,
         Api_call (Call_add_var (Some ''x'')
           \<lparr>create_ret = SCIP_OKAY, created_var = 7, set_initial_ret = SCIP_OKAY,
            set_removable_ret = SCIP_OKAY, add_ret = SCIP_OKAY, release_ret = SCIP_OKAY,
            var_realloc_ok = True\<rparr>)]
        bridge_init) = Some NULL \<and>
   map_option (getVarByHandle 1 \<circ> snd \<circ> scip_problem_begin (Some ''q'') 1 SCIP_OKAY SCIP_OKAY)
     (run_api
        [Api_create SCIP_OKAY 9 SCIP_OKAY SCIP_OKAY SCIP_OKAY,
         Api_problem_begin (Some ''p'') 0 SCIP_OKAY SCIP_OKAY,
         Api_call (Call_add_var (Some ''x'')
           \<lparr>create_ret = SCIP_OKAY, created_var = 7, set_initial_ret = SCIP_OKAY,
            set_removable_ret = SCIP_OKAY, add_ret = SCIP_OKAY, release_ret = SCIP_OKAY,
            var_realloc_ok = True\<rparr>)]
        bridge_init) = Some NULL"
proof -
  let ?calls = "[Api_create SCIP_OKAY 9 SCIP_OKAY SCIP_OKAY SCIP_OKAY,
         Api_problem_begin (Some ''p'') 0 SCIP_OKAY SCIP_OKAY,
         Api_call (Call_add_var (Some ''x'')
           \<lparr>create_ret = SCIP_OKAY, created_var = 7, set_initial_ret = SCIP_OKAY,
            set_removable_ret = SCIP_OKAY, add_ret = SCIP_OKAY, release_ret = SCIP_OKAY,
            var_realloc_ok = True\<rparr>)]"
  have v: "map_option (getVarByHandle 1) (run_api ?calls bridge_init) = Some 7"
    by (simp add: scip_create_def scip_problem_begin_def forget_pricer_def clearRegistries_def
        resetPricingState_def clearCurrentProblem_def scip_add_var_def registerVarHandle_def
        registerHandle_def ensureRegistryCapacity_def growCapacity_64_1 getVarByHandle_def
        getByHandle_def bridge_init_def clearRegistry_def registry_size_def Let_def)
  then obtain s where s: "run_api ?calls bridge_init = Some s" by blast
  from reset_invalidates_handles[OF s, where h = 1 and name = "Some ''q''" and maximize = 1
      and create_prob_ret = SCIP_OKAY and set_sense_ret = SCIP_OKAY] s v
  show ?thesis by simp
qed

end
